theory Spec2Isabelle
  imports Main "HOL-Library.Word" "HOL-Library.AList" "HOL-Library.Char_ord" "HOL-Library.List_Lexorder"
begin

section \<open>The query-condition translator of pkg/mgo/query\<close>

text \<open>
  The development embeds \<^verbatim>\<open>pkg/mgo/query/query_condition.go\<close>: the per-column
  normalisation (\<^verbatim>\<open>checkName\<close>, \<^verbatim>\<open>checkValid\<close>, \<^verbatim>\<open>convertLogic\<close>, \<^verbatim>\<open>convert\<close>),
  the grouping of columns (\<^verbatim>\<open>checkSameLogic\<close>, \<^verbatim>\<open>groupingIndex\<close>) and the two
  builders \<^verbatim>\<open>ConvertToMongoFilter\<close> and \<^verbatim>\<open>convertMultiColumns\<close>.

  Go strings are byte strings, so \<^typ>\<open>string\<close> (a list of 8-bit characters) is their
  model and \<^const>\<open>length\<close> is Go's \<^verbatim>\<open>len\<close>. Go's \<^verbatim>\<open>int\<close> is modelled by \<^typ>\<open>int\<close>:
  the only integers of the code are slice lengths and indexes, far from 64-bit overflow.
\<close>

subsection \<open>Values and filter documents\<close>

text \<open>
  \<^verbatim>\<open>Column.Value\<close> is an \<^verbatim>\<open>interface{}\<close>. The model has the dynamic types the code
  itself distinguishes or produces: \<^verbatim>\<open>nil\<close>, strings, integers, booleans, the driver's
  12-byte \<^verbatim>\<open>primitive.ObjectID\<close>, slices (\<^verbatim>\<open>[]bson.M\<close> and \<^verbatim>\<open>[]interface{}\<close>) and
  \<^verbatim>\<open>bson.M\<close> documents; other dynamic types, floating-point numbers for instance, are
  outside the model. A \<^verbatim>\<open>bson.M\<close> is a Go map from strings to values; it is kept as an
  association list with distinct keys, a literal in the order the source writes it.
\<close>

type_synonym byte = "8 word"

datatype bvalue =
    VNil
  | VString string
  | VInt int
  | VBool bool
  | VObjectID "byte list"
  | VArray "bvalue list"
  | VDoc "(string \<times> bvalue) list"

type_synonym bsonM = "(string \<times> bvalue) list"

subsection \<open>The constants and the two lookup tables\<close>

abbreviation Eq :: string where "Eq \<equiv> ''eq''"
abbreviation eqSymbol :: string where "eqSymbol \<equiv> ''=''"
abbreviation Neq :: string where "Neq \<equiv> ''neq''"
abbreviation neqSymbol :: string where "neqSymbol \<equiv> ''!=''"
abbreviation Gt :: string where "Gt \<equiv> ''gt''"
abbreviation gtSymbol :: string where "gtSymbol \<equiv> ''>''"
abbreviation Gte :: string where "Gte \<equiv> ''gte''"
abbreviation gteSymbol :: string where "gteSymbol \<equiv> ''>=''"
abbreviation Lt :: string where "Lt \<equiv> ''lt''"
abbreviation ltSymbol :: string where "ltSymbol \<equiv> ''<''"
abbreviation Lte :: string where "Lte \<equiv> ''lte''"
abbreviation lteSymbol :: string where "lteSymbol \<equiv> ''<=''"
abbreviation Like :: string where "Like \<equiv> ''like''"
abbreviation In :: string where "In \<equiv> ''in''"
abbreviation NotIn :: string where "NotIn \<equiv> ''nin''"

abbreviation AND :: string where "AND \<equiv> ''and''"
abbreviation andSymbol1 :: string where "andSymbol1 \<equiv> ''&''"
abbreviation andSymbol2 :: string where "andSymbol2 \<equiv> ''&&''"
abbreviation OR :: string where "OR \<equiv> ''or''"
abbreviation orSymbol1 :: string where "orSymbol1 \<equiv> ''|''"
abbreviation orSymbol2 :: string where "orSymbol2 \<equiv> ''||''"

abbreviation (input) allLogicAnd :: int where "allLogicAnd \<equiv> 1"
abbreviation (input) allLogicOr :: int where "allLogicOr \<equiv> 2"

definition expMap :: "string \<rightharpoonup> string" where
  "expMap = map_of
     [(Eq, eqSymbol), (eqSymbol, eqSymbol),
      (Neq, neqSymbol), (neqSymbol, neqSymbol),
      (Gt, gtSymbol), (gtSymbol, gtSymbol),
      (Gte, gteSymbol), (gteSymbol, gteSymbol),
      (Lt, ltSymbol), (ltSymbol, ltSymbol),
      (Lte, lteSymbol), (lteSymbol, lteSymbol),
      (Like, Like), (In, In), (NotIn, NotIn),
      (''notin'', NotIn), (''not in'', NotIn)]"

definition logicMap :: "string \<rightharpoonup> string" where
  "logicMap = map_of
     [(AND, andSymbol1), (andSymbol1, andSymbol1), (andSymbol2, andSymbol1),
      (OR, orSymbol1), (orSymbol1, orSymbol1), (orSymbol2, orSymbol1)]"

subsection \<open>Library functions the code calls\<close>

text \<open>
  \<^verbatim>\<open>strings.ToLower\<close>. ASCII capitals become small letters. A byte outside ASCII stays
  as it is, with two exceptions: the code points U+0130 (bytes C4 B0) and U+212A (bytes
  E2 84 AA) have the ASCII letters i and k as their lower case. No other code point is
  mapped into ASCII, so a lookup of the lowered string in the two tables above, whose keys
  are ASCII, finds what the Go lookup finds.
\<close>

definition lowerASCII :: "char \<Rightarrow> char" where
  "lowerASCII c =
     (let n = (of_char c :: nat) in if 65 \<le> n \<and> n \<le> 90 then char_of (n + 32) else c)"

function ToLower :: "string \<Rightarrow> string" where
  "ToLower [] = []"
| "ToLower (c # cs) =
     (if c = CHR 0xC4 \<and> take 1 cs = [CHR 0xB0] then CHR ''i'' # ToLower (drop 1 cs)
      else if c = CHR 0xE2 \<and> take 2 cs = [CHR 0x84, CHR 0xAA] then CHR ''k'' # ToLower (drop 2 cs)
      else lowerASCII c # ToLower cs)"
  by pat_completeness auto
termination
  by (relation "measure length") auto

text \<open>\<^verbatim>\<open>strings.HasSuffix\<close> and \<^verbatim>\<open>strings.TrimSuffix\<close>.\<close>

definition HasSuffix :: "string \<Rightarrow> string \<Rightarrow> bool" where
  "HasSuffix s suf \<longleftrightarrow>
     length suf \<le> length s \<and> drop (length s - length suf) s = suf"

definition TrimSuffix :: "string \<Rightarrow> string \<Rightarrow> string" where
  "TrimSuffix s suf = (if HasSuffix s suf then take (length s - length suf) s else s)"

text \<open>
  \<^verbatim>\<open>strings.Split\<close> with a one-byte separator: the pieces between the separators, so
  that the empty string gives one empty piece.
\<close>

fun Split :: "string \<Rightarrow> char \<Rightarrow> string list" where
  "Split [] sep = [[]]"
| "Split (c # cs) sep =
     (if c = sep then [] # Split cs sep
      else (case Split cs sep of [] \<Rightarrow> [[c]] | w # ws \<Rightarrow> (c # w) # ws))"

text \<open>
  \<^verbatim>\<open>primitive.ObjectIDFromHex\<close> belongs to the MongoDB driver. It accepts exactly the
  strings of 24 hexadecimal digits (of either case) and decodes them into 12 bytes.
\<close>

definition fromHexChar :: "char \<Rightarrow> nat option" where
  "fromHexChar c =
     (let n = (of_char c :: nat) in
      if 48 \<le> n \<and> n \<le> 57 then Some (n - 48)
      else if 97 \<le> n \<and> n \<le> 102 then Some (n - 87)
      else if 65 \<le> n \<and> n \<le> 70 then Some (n - 55)
      else None)"

fun hexDecode :: "string \<Rightarrow> byte list option" where
  "hexDecode [] = Some []"
| "hexDecode [a] = None"
| "hexDecode (a # b # cs) =
     (case (fromHexChar a, fromHexChar b) of
        (Some h, Some l) \<Rightarrow>
          (case hexDecode cs of None \<Rightarrow> None | Some bs \<Rightarrow> Some (of_nat (16 * h + l) # bs))
      | _ \<Rightarrow> None)"

definition ObjectIDFromHex :: "string \<Rightarrow> byte list option" where
  "ObjectIDFromHex s = (if length s \<noteq> 24 then None else hexDecode s)"

text \<open>
  \<^verbatim>\<open>fmt.Sprintf("%v", v)\<close> on the values of the model: a string as it is, an integer
  in decimal, an ObjectID through its \<^verbatim>\<open>String\<close> method, a slice as its elements between
  brackets, a map as its entries in key order.
\<close>

fun digits :: "nat \<Rightarrow> string" where
  "digits n = (if n < 10 then [char_of (48 + n)] else digits (n div 10) @ [char_of (48 + n mod 10)])"

declare digits.simps [simp del]

definition showInt :: "int \<Rightarrow> string" where
  "showInt i = (if i < 0 then CHR ''-'' # digits (nat (- i)) else digits (nat i))"

definition hexDigit :: "nat \<Rightarrow> char" where
  "hexDigit n = (if n < 10 then char_of (48 + n) else char_of (87 + n))"

definition hexEncode :: "byte list \<Rightarrow> string" where
  "hexEncode bs = concat (map (\<lambda>b. [hexDigit (unat b div 16), hexDigit (unat b mod 16)]) bs)"

fun joinWith :: "string \<Rightarrow> string list \<Rightarrow> string" where
  "joinWith sep [] = []"
| "joinWith sep [s] = s"
| "joinWith sep (s # t # ss) = s @ sep @ joinWith sep (t # ss)"

fun Sprint :: "bvalue \<Rightarrow> string" where
  "Sprint VNil = ''<nil>''"
| "Sprint (VString s) = s"
| "Sprint (VInt i) = showInt i"
| "Sprint (VBool b) = (if b then ''true'' else ''false'')"
| "Sprint (VObjectID bs) = ''ObjectID(\"'' @ hexEncode bs @ ''\")''"
| "Sprint (VArray vs) = ''['' @ joinWith '' '' (map Sprint vs) @ '']''"
| "Sprint (VDoc kvs) =
     ''map['' @ joinWith '' ''
        (map (\<lambda>kv. fst kv @ '':'' @ snd kv)
           (sort_key fst (map (\<lambda>kv. (fst kv, Sprint (snd kv))) kvs))) @ '']''"

text \<open>\<^verbatim>\<open>regexp.QuoteMeta\<close>: a backslash before each of the bytes \<^verbatim>\<open>\.+*?()|[]{}^$\<close>.\<close>

definition specialByte :: "char \<Rightarrow> bool" where
  "specialByte c \<longleftrightarrow> c \<in> set (CHR 0x5C # ''.+*?()|[]{}^$'')"

fun QuoteMeta :: "string \<Rightarrow> string" where
  "QuoteMeta [] = []"
| "QuoteMeta (c # cs) = (if specialByte c then CHR 0x5C # c # QuoteMeta cs else c # QuoteMeta cs)"

subsection \<open>Columns, parameters, options and errors\<close>

record Column =
  Name :: string
  Exp :: string
  Value :: bvalue
  Logic :: string

record Params =
  Page :: int
  Limit :: int
  Sort :: string
  Columns :: "Column list"
  Size :: int

text \<open>
  Every error of the code is built by \<^verbatim>\<open>fmt.Errorf\<close> from a fixed message and one
  argument; the model keeps the message as a constructor and the argument as its field.
  \<^verbatim>\<open>Custom\<close> stands for whatever error a caller-supplied validation function returns.
  \<^verbatim>\<open>IndexOutOfRange\<close> is the run-time panic of a slice index outside the slice.
\<close>

datatype error =
    NameNotAllowed string      \<comment> \<open>field name '%s' is not allowed\<close>
  | NameEmpty                  \<comment> \<open>field 'name' cannot be empty\<close>
  | ValueNil                   \<comment> \<open>field 'value' cannot be nil\<close>
  | UnknownLogic string        \<comment> \<open>unknown logic type '%s'\<close>
  | UnsupportedExp string      \<comment> \<open>unsported exp type '%s'\<close>
  | InvalidValueType bvalue    \<comment> \<open>invalid value type '%s'\<close>
  | Custom string
  | IndexOutOfRange

text \<open>
  A whitelist is a Go \<^verbatim>\<open>map[string]bool\<close> that may be \<^verbatim>\<open>nil\<close>; reading a missing key
  of it gives \<^verbatim>\<open>false\<close>. The validation function is taken to inspect the columns only.
\<close>

type_synonym whitelist = "(string \<rightharpoonup> bool) option"

record rulerOptions =
  whitelistNames :: whitelist
  validateFn :: "(Column list \<Rightarrow> error option) option"

type_synonym RulerOption = "rulerOptions \<Rightarrow> rulerOptions"

definition apply_opts :: "rulerOptions \<Rightarrow> RulerOption list \<Rightarrow> rulerOptions" where
  "apply_opts o1 opts = foldl (\<lambda>o2 opt. opt o2) o1 opts"

definition WithWhitelistNames :: "whitelist \<Rightarrow> RulerOption" where
  "WithWhitelistNames wl = (\<lambda>o1. o1\<lparr>whitelistNames := wl\<rparr>)"

definition WithValidateFn :: "(Column list \<Rightarrow> error option) option \<Rightarrow> RulerOption" where
  "WithValidateFn fn = (\<lambda>o1. o1\<lparr>validateFn := fn\<rparr>)"

subsection \<open>The checks and the normalisation of one column\<close>

definition checkName :: "whitelist \<Rightarrow> Column \<Rightarrow> error option" where
  "checkName whitelists c =
     (if Name c = [] \<or>
         (case whitelists of
            None \<Rightarrow> False
          | Some w \<Rightarrow> \<not> (case w (Name c) of None \<Rightarrow> False | Some b \<Rightarrow> b))
      then Some (NameNotAllowed (Name c)) else None)"

definition checkValid :: "Column \<Rightarrow> error option" where
  "checkValid c =
     (if Name c = [] then Some NameEmpty
      else if Value c = VNil then Some ValueNil
      else None)"

text \<open>
  The methods with a pointer receiver write the column they are called on. The model
  returns the column as the call leaves it, also when the call fails, next to the error.
\<close>

definition convertLogic :: "Column \<Rightarrow> Column \<times> error option" where
  "convertLogic c =
     (let c1 = (if Logic c = [] then c\<lparr>Logic := AND\<rparr> else c) in
      case logicMap (ToLower (Logic c1)) of
        Some v \<Rightarrow> (c1\<lparr>Logic := v\<rparr>, None)
      | None \<Rightarrow> (c1, Some (UnknownLogic (Logic c1))))"

definition isObjectID :: "bvalue \<Rightarrow> byte list option" where
  "isObjectID v =
     (case v of
        VString str \<Rightarrow> (if length str = 24 then ObjectIDFromHex str else None)
      | _ \<Rightarrow> None)"

definition convert :: "Column \<Rightarrow> Column \<times> error option" where
  "convert c =
     (case checkValid c of
        Some err \<Rightarrow> (c, Some err)
      | None \<Rightarrow>
          let c1 = (case isObjectID (Value c) of
                      Some oid \<Rightarrow>
                        (let c' = c\<lparr>Value := VObjectID oid\<rparr> in
                         if Name c' = ''id'' then c'\<lparr>Name := ''_id''\<rparr>
                         else if HasSuffix (Name c') '':oid''
                           then c'\<lparr>Name := TrimSuffix (Name c') '':oid''\<rparr>
                         else c')
                    | None \<Rightarrow> c);
              c2 = (if Exp c1 = [] then c1\<lparr>Exp := Eq\<rparr> else c1)
          in (case expMap (ToLower (Exp c2)) of
                Some v \<Rightarrow>
                  (let c3 = c2\<lparr>Exp := v\<rparr> in
                   if Exp c3 = neqSymbol then convertLogic (c3\<lparr>Value := VDoc [(''$ne'', Value c3)]\<rparr>)
                   else if Exp c3 = gtSymbol then convertLogic (c3\<lparr>Value := VDoc [(''$gt'', Value c3)]\<rparr>)
                   else if Exp c3 = gteSymbol then convertLogic (c3\<lparr>Value := VDoc [(''$gte'', Value c3)]\<rparr>)
                   else if Exp c3 = ltSymbol then convertLogic (c3\<lparr>Value := VDoc [(''$lt'', Value c3)]\<rparr>)
                   else if Exp c3 = lteSymbol then convertLogic (c3\<lparr>Value := VDoc [(''$lte'', Value c3)]\<rparr>)
                   else if Exp c3 = Like then
                     (let escapedValue = QuoteMeta (Sprint (Value c3)) in
                      convertLogic (c3\<lparr>Value := VDoc [(''$regex'', VString escapedValue),
                                                        (''$options'', VString ''i'')]\<rparr>))
                   else if Exp c3 = In \<or> Exp c3 = NotIn then
                     (case Value c3 of
                        VString val \<Rightarrow>
                          (let values = map VString (Split val CHR '','') in
                           convertLogic (c3\<lparr>Value := VDoc [(''$'' @ Exp c3, VArray values)]\<rparr>))
                      | _ \<Rightarrow> (c3, Some (InvalidValueType (Value c3))))
                   else convertLogic c3)
              | None \<Rightarrow> (c2, Some (UnsupportedExp (Exp c2)))))"

subsection \<open>Grouping\<close>

text \<open>
  \<^verbatim>\<open>for i, column := range columns\<close> binds \<^verbatim>\<open>column\<close> to a copy of the element, so
  \<^verbatim>\<open>column.convertLogic()\<close> normalises the copy and the slice keeps the raw logic. The
  loop of \<^verbatim>\<open>checkSameLogic\<close> stops at the last column or at the first error.
\<close>

fun checkSameLogic_loop :: "int \<Rightarrow> int \<Rightarrow> Column list \<Rightarrow> int list \<Rightarrow> int list \<times> error option" where
  "checkSameLogic_loop l i [] orIndexes = (orIndexes, None)"
| "checkSameLogic_loop l i (column # rest) orIndexes =
     (if i = l - 1 then (orIndexes, None)
      else (case convertLogic column of
              (column', Some err) \<Rightarrow> (orIndexes, Some err)
            | (column', None) \<Rightarrow>
                checkSameLogic_loop l (i + 1) rest
                  (if Logic column' = orSymbol1 then orIndexes @ [i] else orIndexes)))"

fun groupingIndex_loop :: "int list \<Rightarrow> int \<Rightarrow> int list list \<Rightarrow> int list list \<times> int" where
  "groupingIndex_loop [] lastIndex groupIndexes = (groupIndexes, lastIndex)"
| "groupingIndex_loop (index # rest) lastIndex groupIndexes =
     (let group = [lastIndex..index] in
      groupingIndex_loop rest
        (if lastIndex = index then lastIndex + 1 else index)
        (groupIndexes @ [group]))"

definition groupingIndex :: "int \<Rightarrow> int list \<Rightarrow> int list list" where
  "groupingIndex l orIndexes =
     (case groupingIndex_loop orIndexes 0 [] of
        (groupIndexes, lastIndex) \<Rightarrow> groupIndexes @ [[lastIndex + 1..l - 1]])"

text \<open>
  The result of \<^verbatim>\<open>checkSameLogic\<close> is Go's triple: the logic type, the groups
  (\<^verbatim>\<open>nil\<close> is \<^const>\<open>None\<close>) and the error.
\<close>

definition checkSameLogic :: "Column list \<Rightarrow> int \<times> int list list option \<times> error option" where
  "checkSameLogic columns =
     (let l = int (length columns) in
      case checkSameLogic_loop l 0 columns [] of
        (orIndexes, Some err) \<Rightarrow> (0, None, Some err)
      | (orIndexes, None) \<Rightarrow>
          if length orIndexes = 0 then (allLogicAnd, None, None)
          else if int (length orIndexes) = l - 1 then (allLogicOr, None, None)
          else (0, Some (groupingIndex l orIndexes), None))"

subsection \<open>The general builder\<close>

text \<open>
  Both single-logic loops of \<^verbatim>\<open>convertMultiColumns\<close> end with the same statement,
  once for the key \<^verbatim>\<open>$and\<close> and once for \<^verbatim>\<open>$or\<close>: if the filter has no entry under
  the key, the entry becomes a one-element slice holding the column's predicate;
  otherwise, if the entry is a slice, the predicate is appended to it.
\<close>

definition appendCondition :: "string \<Rightarrow> Column \<Rightarrow> bsonM \<Rightarrow> bsonM" where
  "appendCondition key column filter' =
     (case map_of filter' key of
        None \<Rightarrow> AList.update key (VArray [VDoc [(Name column, Value column)]]) filter'
      | Some v \<Rightarrow>
          (case v of
             VArray cols \<Rightarrow>
               AList.update key (VArray (cols @ [VDoc [(Name column, Value column)]])) filter'
           | _ \<Rightarrow> filter'))"

text \<open>
  In the loops \<^verbatim>\<open>column\<close> is again a copy (\<^verbatim>\<open>for _, column := range p.Columns\<close> and
  \<^verbatim>\<open>column := p.Columns[index]\<close>): \<^verbatim>\<open>column.convert()\<close> normalises the copy, the predicate
  is built from the copy, and \<^verbatim>\<open>p.Columns\<close> is not written. The loops return the first
  error (\<^const>\<open>Inl\<close>) or what they have collected (\<^const>\<open>Inr\<close>).
\<close>

fun allLogicAnd_loop :: "whitelist \<Rightarrow> Column list \<Rightarrow> bsonM \<Rightarrow> error + bsonM" where
  "allLogicAnd_loop whitelistNames' [] filter' = Inr filter'"
| "allLogicAnd_loop whitelistNames' (column # rest) filter' =
     (case checkName whitelistNames' column of
        Some err \<Rightarrow> Inl err
      | None \<Rightarrow>
          (case convert column of
             (column', Some err) \<Rightarrow> Inl err
           | (column', None) \<Rightarrow>
               allLogicAnd_loop whitelistNames' rest (appendCondition ''$and'' column' filter')))"

fun allLogicOr_loop :: "Column list \<Rightarrow> bsonM \<Rightarrow> error + bsonM" where
  "allLogicOr_loop [] filter' = Inr filter'"
| "allLogicOr_loop (column # rest) filter' =
     (case convert column of
        (column', Some err) \<Rightarrow> Inl err
      | (column', None) \<Rightarrow> allLogicOr_loop rest (appendCondition ''$or'' column' filter'))"

definition columnAt :: "Column list \<Rightarrow> int \<Rightarrow> Column option" where
  "columnAt columns index =
     (if 0 \<le> index \<and> index < int (length columns) then Some (columns ! nat index) else None)"

fun andConditions_loop :: "Column list \<Rightarrow> int list \<Rightarrow> bvalue list \<Rightarrow> error + bvalue list" where
  "andConditions_loop columns [] andConditions = Inr andConditions"
| "andConditions_loop columns (index # rest) andConditions =
     (case columnAt columns index of
        None \<Rightarrow> Inl IndexOutOfRange
      | Some column \<Rightarrow>
          (case convert column of
             (column', Some err) \<Rightarrow> Inl err
           | (column', None) \<Rightarrow>
               andConditions_loop columns rest
                 (andConditions @ [VDoc [(Name column', Value column')]])))"

fun orConditions_loop :: "Column list \<Rightarrow> int list list \<Rightarrow> bvalue list \<Rightarrow> error + bvalue list" where
  "orConditions_loop columns [] orConditions = Inr orConditions"
| "orConditions_loop columns (indexes # rest) orConditions =
     (if length indexes = 1 then
        (case columnAt columns (indexes ! 0) of
           None \<Rightarrow> Inl IndexOutOfRange
         | Some column \<Rightarrow>
             (case convert column of
                (column', Some err) \<Rightarrow> Inl err
              | (column', None) \<Rightarrow>
                  orConditions_loop columns rest
                    (orConditions @ [VDoc [(Name column', Value column')]])))
      else
        (case andConditions_loop columns indexes [] of
           Inl err \<Rightarrow> Inl err
         | Inr andConditions \<Rightarrow>
             orConditions_loop columns rest
               (orConditions @ [VDoc [(''$and'', VArray andConditions)]])))"

text \<open>
  The result is Go's pair of a filter and an error, each of which may be \<^verbatim>\<open>nil\<close>
  (\<^const>\<open>None\<close>).
\<close>

definition convertMultiColumns :: "Params \<Rightarrow> whitelist \<Rightarrow> bsonM option \<times> error option" where
  "convertMultiColumns p whitelistNames' =
     (case checkSameLogic (Columns p) of
        (logicType, groupIndexes, Some err) \<Rightarrow> (None, Some err)
      | (logicType, groupIndexes, None) \<Rightarrow>
          if logicType = allLogicAnd then
            (case allLogicAnd_loop whitelistNames' (Columns p) [] of
               Inl err \<Rightarrow> (None, Some err)
             | Inr filter' \<Rightarrow> (Some filter', None))
          else if logicType = allLogicOr then
            (case allLogicOr_loop (Columns p) [] of
               Inl err \<Rightarrow> (None, Some err)
             | Inr filter' \<Rightarrow> (Some filter', None))
          else
            (case orConditions_loop (Columns p) (case groupIndexes of None \<Rightarrow> [] | Some g \<Rightarrow> g) [] of
               Inl err \<Rightarrow> (None, Some err)
             | Inr orConditions \<Rightarrow> (Some (AList.update ''$or'' (VArray orConditions) []), None)))"

subsection \<open>The entry point\<close>

text \<open>
  \<^verbatim>\<open>ConvertToMongoFilter\<close> has a pointer receiver and, for one and two columns, calls
  \<^verbatim>\<open>convert\<close> on the slice elements themselves (\<^verbatim>\<open>p.Columns[0].convert()\<close>), which
  writes them. The model returns the parameters as the call leaves them, then the filter
  and the error.
\<close>

definition ConvertToMongoFilter :: "Params \<Rightarrow> RulerOption list \<Rightarrow> Params \<times> bsonM option \<times> error option" where
  "ConvertToMongoFilter p opts =
     (let o1 = apply_opts \<lparr>whitelistNames = None, validateFn = None\<rparr> opts in
      case (case validateFn o1 of None \<Rightarrow> None | Some fn \<Rightarrow> fn (Columns p)) of
        Some err \<Rightarrow> (p, None, Some err)
      | None \<Rightarrow>
          (let l = length (Columns p) in
           if l = 0 then (p, Some [], None)
           else if l = 1 then
             (case checkName (whitelistNames o1) (Columns p ! 0) of
                Some err \<Rightarrow> (p, None, Some err)
              | None \<Rightarrow>
                  (case convert (Columns p ! 0) of
                     (c0, Some err) \<Rightarrow> (p\<lparr>Columns := (Columns p)[0 := c0]\<rparr>, None, Some err)
                   | (c0, None) \<Rightarrow>
                       (p\<lparr>Columns := (Columns p)[0 := c0]\<rparr>,
                        Some (AList.update (Name c0) (Value c0) []), None)))
           else if l = 2 then
             (case checkName (whitelistNames o1) (Columns p ! 0) of
                Some err \<Rightarrow> (p, None, Some err)
              | None \<Rightarrow>
                  (case checkName (whitelistNames o1) (Columns p ! 1) of
                     Some err \<Rightarrow> (p, None, Some err)
                   | None \<Rightarrow>
                       (case convert (Columns p ! 0) of
                          (c0, Some err) \<Rightarrow> (p\<lparr>Columns := (Columns p)[0 := c0]\<rparr>, None, Some err)
                        | (c0, None) \<Rightarrow>
                            (let p1 = p\<lparr>Columns := (Columns p)[0 := c0]\<rparr> in
                             case convert (Columns p1 ! 1) of
                               (c1, Some err) \<Rightarrow> (p1\<lparr>Columns := (Columns p1)[1 := c1]\<rparr>, None, Some err)
                             | (c1, None) \<Rightarrow>
                                 (let p2 = p1\<lparr>Columns := (Columns p1)[1 := c1]\<rparr> in
                                  if Logic (Columns p2 ! 0) = andSymbol1 then
                                    (p2, Some [(''$and'', VArray
                                           [VDoc [(Name (Columns p2 ! 0), Value (Columns p2 ! 0))],
                                            VDoc [(Name (Columns p2 ! 1), Value (Columns p2 ! 1))]])], None)
                                  else
                                    (p2, Some [(''$or'', VArray
                                           [VDoc [(Name (Columns p2 ! 0), Value (Columns p2 ! 0))],
                                            VDoc [(Name (Columns p2 ! 1), Value (Columns p2 ! 1))]])], None))))))
           else (p, convertMultiColumns p (whitelistNames o1))))"

subsection \<open>The steps of \<^verbatim>\<open>convert\<close>, named\<close>

text \<open>
  The statements below speak about the parts of \<^verbatim>\<open>convert\<close> and \<^verbatim>\<open>convertLogic\<close>
  one at a time. Each part gets a name here; \<open>convert_steps\<close> and
  \<open>convertLogic_normLogic\<close> prove that the functions above are their composition.

  \<^item> \<open>coerceObjectID\<close>: the block that replaces a 24-digit hexadecimal string value by
    the ObjectID and rewrites the name;
  \<^item> \<open>normExp\<close>: the operator an \<^verbatim>\<open>Exp\<close> string stands for (empty means \<^verbatim>\<open>eq\<close>);
  \<^item> \<open>wrapValue\<close>: the \<^verbatim>\<open>switch\<close> on the normalised operator;
  \<^item> \<open>normalizeExp\<close>: the operator lookup, the switch and the final \<^verbatim>\<open>convertLogic\<close>;
  \<^item> \<open>normLogic\<close>: the connective a \<^verbatim>\<open>Logic\<close> string stands for (empty means \<^verbatim>\<open>and\<close>);
  \<^item> \<open>predicate\<close>: the one-entry document \<^verbatim>\<open>bson.M{column.Name: column.Value}\<close>;
  \<^item> \<open>normalized\<close>: the column as \<^verbatim>\<open>convert\<close> leaves it.
\<close>

definition coerceObjectID :: "Column \<Rightarrow> Column" where
  "coerceObjectID c =
     (case isObjectID (Value c) of
        Some oid \<Rightarrow>
          c\<lparr>Value := VObjectID oid,
            Name := (if Name c = ''id'' then ''_id''
                     else if HasSuffix (Name c) '':oid'' then TrimSuffix (Name c) '':oid''
                     else Name c)\<rparr>
      | None \<Rightarrow> c)"

definition normExp :: "string \<Rightarrow> string option" where
  "normExp e = expMap (ToLower (if e = [] then Eq else e))"

definition wrapValue :: "string \<Rightarrow> bvalue \<Rightarrow> error + bvalue" where
  "wrapValue op v =
     (if op = neqSymbol then Inr (VDoc [(''$ne'', v)])
      else if op = gtSymbol then Inr (VDoc [(''$gt'', v)])
      else if op = gteSymbol then Inr (VDoc [(''$gte'', v)])
      else if op = ltSymbol then Inr (VDoc [(''$lt'', v)])
      else if op = lteSymbol then Inr (VDoc [(''$lte'', v)])
      else if op = Like then
        Inr (VDoc [(''$regex'', VString (QuoteMeta (Sprint v))), (''$options'', VString ''i'')])
      else if op = In \<or> op = NotIn then
        (case v of
           VString val \<Rightarrow> Inr (VDoc [(''$'' @ op, VArray (map VString (Split val CHR '','')))])
         | _ \<Rightarrow> Inl (InvalidValueType v))
      else Inr v)"

definition normalizeExp :: "Column \<Rightarrow> Column \<times> error option" where
  "normalizeExp c =
     (let c2 = (if Exp c = [] then c\<lparr>Exp := Eq\<rparr> else c) in
      case normExp (Exp c) of
        None \<Rightarrow> (c2, Some (UnsupportedExp (Exp c2)))
      | Some v \<Rightarrow>
          (case wrapValue v (Value c2) of
             Inl err \<Rightarrow> (c2\<lparr>Exp := v\<rparr>, Some err)
           | Inr w \<Rightarrow> convertLogic (c2\<lparr>Exp := v, Value := w\<rparr>)))"

definition normLogic :: "string \<Rightarrow> string option" where
  "normLogic lg = logicMap (ToLower (if lg = [] then AND else lg))"

definition predicate :: "Column \<Rightarrow> bvalue" where
  "predicate c = VDoc [(Name c, Value c)]"

definition normalized :: "Column \<Rightarrow> Column" where
  "normalized c = fst (convert c)"

text \<open>
  For the entry point: \<open>options\<close> is the option record after the first two statements
  of \<^verbatim>\<open>ConvertToMongoFilter\<close>, and \<open>validated\<close> says that the validation function, if
  there is one, accepts the columns.
\<close>

definition options :: "RulerOption list \<Rightarrow> rulerOptions" where
  "options opts = apply_opts \<lparr>whitelistNames = None, validateFn = None\<rparr> opts"

definition validated :: "RulerOption list \<Rightarrow> Params \<Rightarrow> bool" where
  "validated opts p \<longleftrightarrow>
     (case validateFn (options opts) of None \<Rightarrow> True | Some fn \<Rightarrow> fn (Columns p) = None)"

section \<open>Properties\<close>

subsection \<open>One column\<close>

lemma checkValid_Logic [simp]: "checkValid (c\<lparr>Logic := l\<rparr>) = checkValid c"
  by (simp add: checkValid_def)

lemma checkValid_Exp [simp]: "checkValid (c\<lparr>Exp := l\<rparr>) = checkValid c"
  by (simp add: checkValid_def)

lemma checkName_Logic [simp]: "checkName wl (c\<lparr>Logic := l\<rparr>) = checkName wl c"
  by (simp add: checkName_def split: option.splits)

lemma checkName_Exp [simp]: "checkName wl (c\<lparr>Exp := l\<rparr>) = checkName wl c"
  by (simp add: checkName_def split: option.splits)

lemma normLogic_AND [simp]: "normLogic [] = Some andSymbol1"
  by (simp add: normLogic_def logicMap_def lowerASCII_def)

lemma convertLogic_normLogic:
  "convertLogic c =
     (case normLogic (Logic c) of
        Some v \<Rightarrow> (c\<lparr>Logic := v\<rparr>, None)
      | None \<Rightarrow> (c, Some (UnknownLogic (Logic c))))"
proof (cases "Logic c = []")
  case True
  have "logicMap (ToLower AND) = Some andSymbol1"
    by (simp add: logicMap_def lowerASCII_def)
  with True show ?thesis
    by (simp add: convertLogic_def normLogic_def)
next
  case False
  then show ?thesis
    by (simp add: convertLogic_def normLogic_def split: option.splits)
qed

lemma convert_steps:
  "convert c =
     (case checkValid c of Some err \<Rightarrow> (c, Some err) | None \<Rightarrow> normalizeExp (coerceObjectID c))"
proof (cases "checkValid c")
  case None
  have 1: "(case isObjectID (Value c) of
                      Some oid \<Rightarrow>
                        (let c' = c\<lparr>Value := VObjectID oid\<rparr> in
                         if Name c' = ''id'' then c'\<lparr>Name := ''_id''\<rparr>
                         else if HasSuffix (Name c') '':oid''
                           then c'\<lparr>Name := TrimSuffix (Name c') '':oid''\<rparr>
                         else c')
                    | None \<Rightarrow> c) = coerceObjectID c"
    by (simp add: coerceObjectID_def Let_def split: option.splits)
  show ?thesis
    unfolding convert_def None option.case 1
    by (simp add: normalizeExp_def normExp_def wrapValue_def Let_def split: option.splits bvalue.splits)
next
  case (Some e)
  then show ?thesis by (simp add: convert_def)
qed

lemma coerceObjectID_Logic [simp]:
  "coerceObjectID (c\<lparr>Logic := l\<rparr>) = (coerceObjectID c)\<lparr>Logic := l\<rparr>"
  "Logic (coerceObjectID c) = Logic c"
  by (simp_all add: coerceObjectID_def split: option.splits)

lemma coerceObjectID_Exp [simp]:
  "coerceObjectID (c\<lparr>Exp := e\<rparr>) = (coerceObjectID c)\<lparr>Exp := e\<rparr>"
  "Exp (coerceObjectID c) = Exp c"
  by (simp_all add: coerceObjectID_def split: option.splits)

text \<open>What a successful conversion says about the raw column.\<close>

lemma convert_ok_checkValid: "snd (convert c) = None \<Longrightarrow> checkValid c = None"
  by (simp add: convert_steps split: option.splits)

lemma convert_ok_Name: "snd (convert c) = None \<Longrightarrow> Name c \<noteq> []"
  using convert_ok_checkValid [of c] by (auto simp: checkValid_def split: if_splits)

lemma normalizeExp_ok_Logic:
  "snd (normalizeExp c) = None \<Longrightarrow>
     (\<exists>v. normLogic (Logic c) = Some v \<and> Logic (fst (normalizeExp c)) = v)"
  by (auto simp: normalizeExp_def Let_def convertLogic_normLogic split: option.splits sum.splits if_splits)

lemma convert_ok_Logic:
  "snd (convert c) = None \<Longrightarrow>
     (\<exists>v. normLogic (Logic c) = Some v \<and> Logic (fst (convert c)) = v)"
  using normalizeExp_ok_Logic [of "coerceObjectID c"]
  by (simp add: convert_steps split: option.splits)

text \<open>The raw logic reaches the result through \<^const>\<open>normLogic\<close> only.\<close>

lemma normalizeExp_Logic_cases:
  "(\<exists>c' e. \<forall>l. normalizeExp (c\<lparr>Logic := l\<rparr>) = (c'\<lparr>Logic := l\<rparr>, Some e)) \<or>
   (\<exists>c'. \<forall>l. normalizeExp (c\<lparr>Logic := l\<rparr>) = convertLogic (c'\<lparr>Logic := l\<rparr>))"
proof (cases "normExp (Exp c)")
  case None
  then show ?thesis
    by (intro disjI1 exI[of _ "if Exp c = [] then c\<lparr>Exp := Eq\<rparr> else c"] exI[of _ "UnsupportedExp (if Exp c = [] then Eq else Exp c)"])
       (simp add: normalizeExp_def)
next
  case (Some v)
  show ?thesis
  proof (cases "wrapValue v (Value c)")
    case (Inl e)
    with Some show ?thesis
      by (intro disjI1 exI[of _ "c\<lparr>Exp := v\<rparr>"] exI[of _ e])
         (simp add: normalizeExp_def)
  next
    case (Inr w)
    with Some show ?thesis
      by (intro disjI2 exI[of _ "c\<lparr>Exp := v, Value := w\<rparr>"])
         (cases c, simp add: normalizeExp_def)
  qed
qed

lemma convert_Logic_cases:
  "(\<exists>c' e. \<forall>l. convert (c\<lparr>Logic := l\<rparr>) = (c'\<lparr>Logic := l\<rparr>, Some e)) \<or>
   (\<exists>c'. \<forall>l. convert (c\<lparr>Logic := l\<rparr>) = convertLogic (c'\<lparr>Logic := l\<rparr>))"
proof (cases "checkValid c")
  case None
  then show ?thesis
    using normalizeExp_Logic_cases [of "coerceObjectID c"]
    by (simp add: convert_steps)
next
  case (Some e)
  then show ?thesis
    by (intro disjI1 exI[of _ c] exI[of _ e]) (simp add: convert_steps)
qed

lemma convert_Logic_indep:
  assumes "normLogic l1 \<noteq> None" "normLogic l2 \<noteq> None"
  shows "snd (convert (c\<lparr>Logic := l1\<rparr>)) = snd (convert (c\<lparr>Logic := l2\<rparr>))"
    and "predicate (fst (convert (c\<lparr>Logic := l1\<rparr>))) = predicate (fst (convert (c\<lparr>Logic := l2\<rparr>)))"
  using convert_Logic_cases [of c] assms
  by (auto simp: convertLogic_normLogic predicate_def)

subsection \<open>The loops\<close>

lemma appendCondition_empty: "appendCondition key c [] = [(key, VArray [predicate c])]"
  by (simp add: appendCondition_def predicate_def)

lemma appendCondition_single:
  "appendCondition key c [(key, VArray ps)] = [(key, VArray (ps @ [predicate c]))]"
  by (simp add: appendCondition_def predicate_def)

lemma appendCondition_predicate:
  "predicate a = predicate b \<Longrightarrow> appendCondition key a flt = appendCondition key b flt"
  by (simp add: appendCondition_def predicate_def split: option.splits bvalue.splits)

lemma convert_ok_pair: "snd (convert c) = None \<Longrightarrow> convert c = (normalized c, None)"
  by (cases "convert c") (simp add: normalized_def)

lemma allLogicAnd_loop_ok:
  "\<forall>c\<in>set cs. checkName wl c = None \<and> snd (convert c) = None \<Longrightarrow>
   allLogicAnd_loop wl cs [(''$and'', VArray ps)] =
     Inr [(''$and'', VArray (ps @ map (\<lambda>c. predicate (normalized c)) cs))]"
proof (induction cs arbitrary: ps)
  case Nil
  then show ?case by simp
next
  case (Cons c cs)
  then have "checkName wl c = None" "snd (convert c) = None" by simp_all
  moreover from Cons have "allLogicAnd_loop wl cs [(''$and'', VArray (ps @ [predicate (normalized c)]))] =
     Inr [(''$and'', VArray ((ps @ [predicate (normalized c)]) @ map (\<lambda>c. predicate (normalized c)) cs))]"
    by simp
  ultimately show ?case
    by (simp add: appendCondition_single convert_ok_pair)
qed

lemma allLogicAnd_loop_ok_start:
  assumes "cs \<noteq> []" "\<forall>c\<in>set cs. checkName wl c = None \<and> snd (convert c) = None"
  shows "allLogicAnd_loop wl cs [] = Inr [(''$and'', VArray (map (\<lambda>c. predicate (normalized c)) cs))]"
proof (cases cs)
  case Nil
  with assms show ?thesis by simp
next
  case (Cons c cs')
  with assms have "checkName wl c = None" "snd (convert c) = None"
    "\<forall>c\<in>set cs'. checkName wl c = None \<and> snd (convert c) = None" by simp_all
  then show ?thesis
    using allLogicAnd_loop_ok [of cs' wl "[predicate (normalized c)]"] Cons
    by (simp add: appendCondition_empty convert_ok_pair)
qed

lemma allLogicOr_loop_ok:
  "\<forall>c\<in>set cs. snd (convert c) = None \<Longrightarrow>
   allLogicOr_loop cs [(''$or'', VArray ps)] =
     Inr [(''$or'', VArray (ps @ map (\<lambda>c. predicate (normalized c)) cs))]"
proof (induction cs arbitrary: ps)
  case Nil
  then show ?case by simp
next
  case (Cons c cs)
  then have "snd (convert c) = None" by simp
  moreover from Cons have "allLogicOr_loop cs [(''$or'', VArray (ps @ [predicate (normalized c)]))] =
     Inr [(''$or'', VArray ((ps @ [predicate (normalized c)]) @ map (\<lambda>c. predicate (normalized c)) cs))]"
    by simp
  ultimately show ?case
    by (simp add: appendCondition_single convert_ok_pair)
qed

lemma allLogicOr_loop_ok_start:
  assumes "cs \<noteq> []" "\<forall>c\<in>set cs. snd (convert c) = None"
  shows "allLogicOr_loop cs [] = Inr [(''$or'', VArray (map (\<lambda>c. predicate (normalized c)) cs))]"
proof (cases cs)
  case Nil
  with assms show ?thesis by simp
next
  case (Cons c cs')
  with assms have "snd (convert c) = None" "\<forall>c\<in>set cs'. snd (convert c) = None" by simp_all
  then show ?thesis
    using allLogicOr_loop_ok [of cs' "[predicate (normalized c)]"] Cons
    by (simp add: appendCondition_empty convert_ok_pair)
qed

lemma allLogicAnd_loop_isl:
  "isl (allLogicAnd_loop wl cs flt) \<longleftrightarrow>
     (\<exists>c\<in>set cs. checkName wl c \<noteq> None \<or> snd (convert c) \<noteq> None)"
  by (induction cs arbitrary: flt) (auto split: option.splits prod.splits)

lemma allLogicOr_loop_isl:
  "isl (allLogicOr_loop cs flt) \<longleftrightarrow> (\<exists>c\<in>set cs. snd (convert c) \<noteq> None)"
  by (induction cs arbitrary: flt) (auto split: option.splits prod.splits)

text \<open>The loop of checkSameLogic\<close>

lemma checkSameLogic_loop_last:
  "i + int (length cs) = l - 1 \<Longrightarrow>
   checkSameLogic_loop l i (cs @ [c1]) acc = checkSameLogic_loop l i (cs @ [c2]) acc"
proof (induction cs arbitrary: i acc)
  case Nil
  then show ?case by simp
next
  case (Cons c cs)
  then have "i \<noteq> l - 1" "(i + 1) + int (length cs) = l - 1" by simp_all
  with Cons.IH show ?case
    by (simp split: prod.splits option.splits)
qed

lemma checkSameLogic_last: "checkSameLogic (cs @ [c1]) = checkSameLogic (cs @ [c2])"
  using checkSameLogic_loop_last [of 0 cs "1 + int (length cs)" c1 "[]" c2]
  by (simp add: checkSameLogic_def)

lemma checkSameLogic_loop_and:
  "i + int (length cs) = l \<Longrightarrow>
   \<forall>c\<in>set (butlast cs). normLogic (Logic c) = Some andSymbol1 \<Longrightarrow>
   checkSameLogic_loop l i cs acc = (acc, None)"
proof (induction cs arbitrary: i)
  case Nil
  then show ?case by simp
next
  case (Cons c cs)
  show ?case
  proof (cases "cs = []")
    case True
    with Cons.prems show ?thesis by simp
  next
    case False
    then have "0 < int (length cs)" by simp
    with False Cons.prems have "i \<noteq> l - 1" "normLogic (Logic c) = Some andSymbol1"
      "(i + 1) + int (length cs) = l" "\<forall>c\<in>set (butlast cs). normLogic (Logic c) = Some andSymbol1"
      by auto
    with Cons.IH [of "i + 1"] show ?thesis
      by (simp add: convertLogic_normLogic)
  qed
qed

lemma checkSameLogic_loop_or:
  "i + int (length cs) = l \<Longrightarrow>
   \<forall>c\<in>set (butlast cs). normLogic (Logic c) = Some orSymbol1 \<Longrightarrow>
   checkSameLogic_loop l i cs acc = (acc @ [i..l - 2], None)"
proof (induction cs arbitrary: i acc)
  case Nil
  then show ?case by simp
next
  case (Cons c cs)
  show ?case
  proof (cases "cs = []")
    case True
    with Cons.prems show ?thesis by simp
  next
    case False
    then have pos: "0 < int (length cs)" by simp
    with False Cons.prems have *: "i \<noteq> l - 1" "normLogic (Logic c) = Some orSymbol1"
      "(i + 1) + int (length cs) = l" "\<forall>c\<in>set (butlast cs). normLogic (Logic c) = Some orSymbol1"
      by auto
    from pos * have "i \<le> l - 2" by simp
    then have "[i..l - 2] = i # [i + 1..l - 2]" by (simp add: upto_rec1)
    with * Cons.IH [of "i + 1" "acc @ [i]"] show ?thesis
      by (simp add: convertLogic_normLogic)
  qed
qed

lemma checkSameLogic_all_and:
  "\<forall>c\<in>set (butlast cs). normLogic (Logic c) = Some andSymbol1 \<Longrightarrow>
   checkSameLogic cs = (allLogicAnd, None, None)"
  using checkSameLogic_loop_and [of 0 cs "int (length cs)" "[]"]
  by (simp add: checkSameLogic_def)

lemma checkSameLogic_all_or:
  assumes "2 \<le> length cs" "\<forall>c\<in>set (butlast cs). normLogic (Logic c) = Some orSymbol1"
  shows "checkSameLogic cs = (allLogicOr, None, None)"
proof -
  have "checkSameLogic_loop (int (length cs)) 0 cs [] = ([0..int (length cs) - 2], None)"
    using checkSameLogic_loop_or [of 0 cs "int (length cs)" "[]"] assms by simp
  moreover have "length [0..int (length cs) - 2] = length cs - 1"
    using assms(1) by simp
  ultimately show ?thesis
    using assms(1) by (simp add: checkSameLogic_def)
qed

subsection \<open>The entry point, case by case\<close>

lemma options_plain [simp]:
  "options [] = \<lparr>whitelistNames = None, validateFn = None\<rparr>"
  "options [WithWhitelistNames wl] = \<lparr>whitelistNames = wl, validateFn = None\<rparr>"
  by (simp_all add: options_def apply_opts_def WithWhitelistNames_def)

lemma validated_plain [simp]: "validated [] p" "validated [WithWhitelistNames wl] p"
  by (simp_all add: validated_def)

lemma ConvertToMongoFilter_rejected:
  "\<not> validated opts p \<Longrightarrow> \<exists>err. ConvertToMongoFilter p opts = (p, None, Some err)"
  by (auto simp: ConvertToMongoFilter_def validated_def options_def split: option.splits)

lemma ConvertToMongoFilter_0:
  assumes "validated opts p" "Columns p = []"
  shows "ConvertToMongoFilter p opts = (p, Some [], None)"
  using assms
  by (simp add: ConvertToMongoFilter_def validated_def options_def split: option.splits)

lemma ConvertToMongoFilter_1:
  assumes "validated opts p" "Columns p = [c0]"
  shows "ConvertToMongoFilter p opts =
     (case checkName (whitelistNames (options opts)) c0 of
        Some err \<Rightarrow> (p, None, Some err)
      | None \<Rightarrow>
          (case snd (convert c0) of
             Some err \<Rightarrow> (p\<lparr>Columns := [normalized c0]\<rparr>, None, Some err)
           | None \<Rightarrow> (p\<lparr>Columns := [normalized c0]\<rparr>,
                       Some [(Name (normalized c0), Value (normalized c0))], None)))"
  using assms
  by (cases "convert c0")
     (simp add: ConvertToMongoFilter_def validated_def options_def normalized_def
          split: option.splits)

lemma ConvertToMongoFilter_2:
  assumes "validated opts p" "Columns p = [c0, c1]"
  shows "ConvertToMongoFilter p opts =
     (case checkName (whitelistNames (options opts)) c0 of
        Some err \<Rightarrow> (p, None, Some err)
      | None \<Rightarrow>
          (case checkName (whitelistNames (options opts)) c1 of
             Some err \<Rightarrow> (p, None, Some err)
           | None \<Rightarrow>
               (case snd (convert c0) of
                  Some err \<Rightarrow> (p\<lparr>Columns := [normalized c0, c1]\<rparr>, None, Some err)
                | None \<Rightarrow>
                    (case snd (convert c1) of
                       Some err \<Rightarrow> (p\<lparr>Columns := [normalized c0, normalized c1]\<rparr>, None, Some err)
                     | None \<Rightarrow>
                         (p\<lparr>Columns := [normalized c0, normalized c1]\<rparr>,
                          Some [(if Logic (normalized c0) = andSymbol1 then ''$and'' else ''$or'',
                                 VArray [predicate (normalized c0), predicate (normalized c1)])],
                          None)))))"
  using assms
  by (cases "convert c0"; cases "convert c1")
     (simp add: ConvertToMongoFilter_def validated_def options_def normalized_def predicate_def
          split: option.splits)

lemma ConvertToMongoFilter_many:
  assumes "validated opts p" "3 \<le> length (Columns p)"
  shows "ConvertToMongoFilter p opts = (p, convertMultiColumns p (whitelistNames (options opts)))"
proof -
  from assms(2) have "Columns p \<noteq> []" "length (Columns p) \<noteq> 1" "length (Columns p) \<noteq> 2"
    by auto
  with assms(1) show ?thesis
    by (simp add: ConvertToMongoFilter_def validated_def options_def Let_def split: option.splits)
qed

subsection \<open>The general builder on lists of one logic\<close>

lemma convertMultiColumns_all_and:
  assumes "Columns p \<noteq> []"
    and "\<forall>c\<in>set (butlast (Columns p)). normLogic (Logic c) = Some andSymbol1"
    and "\<forall>c\<in>set (Columns p). checkName wl c = None \<and> snd (convert c) = None"
  shows "convertMultiColumns p wl =
     (Some [(''$and'', VArray (map (\<lambda>c. predicate (normalized c)) (Columns p)))], None)"
  using checkSameLogic_all_and [OF assms(2)] allLogicAnd_loop_ok_start [OF assms(1) assms(3)]
  by (simp add: convertMultiColumns_def)

lemma convertMultiColumns_all_or:
  assumes "2 \<le> length (Columns p)"
    and "\<forall>c\<in>set (butlast (Columns p)). normLogic (Logic c) = Some orSymbol1"
    and "\<forall>c\<in>set (Columns p). snd (convert c) = None"
  shows "convertMultiColumns p wl =
     (Some [(''$or'', VArray (map (\<lambda>c. predicate (normalized c)) (Columns p)))], None)"
proof -
  from assms(1) have "Columns p \<noteq> []" by auto
  then show ?thesis
    using checkSameLogic_all_or [OF assms(1) assms(2)] allLogicOr_loop_ok_start [OF _ assms(3)]
    by (simp add: convertMultiColumns_def)
qed

subsection \<open>The fields that normalizeExp leaves\<close>

lemma normalizeExp_Name [simp]: "Name (fst (normalizeExp c)) = Name c"
  by (simp add: normalizeExp_def convertLogic_normLogic Let_def split: option.splits sum.splits)

lemma normalizeExp_Value:
  "Value (fst (normalizeExp c)) =
     (case normExp (Exp c) of
        None \<Rightarrow> Value c
      | Some op \<Rightarrow> (case wrapValue op (Value c) of Inl err \<Rightarrow> Value c | Inr w \<Rightarrow> w))"
  by (simp add: normalizeExp_def convertLogic_normLogic Let_def split: option.splits sum.splits)

lemma wrapValue_eq [simp]: "wrapValue eqSymbol v = Inr v"
  by (simp add: wrapValue_def)

lemma wrapValue_set:
  "op = In \<or> op = NotIn \<Longrightarrow>
   wrapValue op v =
     (case v of
        VString val \<Rightarrow> Inr (VDoc [(''$'' @ op, VArray (map VString (Split val CHR '','')))])
      | _ \<Rightarrow> Inl (InvalidValueType v))"
  by (auto simp: wrapValue_def)

subsection \<open>Tokens with the same canonical form\<close>

lemma ToLower_ne: "ToLower s \<noteq> [] \<Longrightarrow> s \<noteq> []"
  by (cases s) simp_all

lemma normalizeExp_same_op:
  assumes "normExp e1 = Some v" "normExp e2 = Some v"
  shows "normalizeExp (c\<lparr>Exp := e1\<rparr>) = normalizeExp (c\<lparr>Exp := e2\<rparr>)"
  using assms
  by (cases c) (simp add: normalizeExp_def Let_def split: sum.splits)

lemma expMap_values:
  "expMap ''='' = Some ''=''" "expMap ''!='' = Some ''!=''" "expMap ''>'' = Some ''>''"
  "expMap ''>='' = Some ''>=''" "expMap ''<'' = Some ''<''" "expMap ''<='' = Some ''<=''"
  "expMap ''notin'' = Some NotIn" "expMap ''not in'' = Some NotIn"
  by (simp_all add: expMap_def)

lemma normExp_named:
  "normExp Eq = Some ''=''" "normExp Neq = Some ''!=''" "normExp Gt = Some ''>''"
  "normExp Gte = Some ''>=''" "normExp Lt = Some ''<''" "normExp Lte = Some ''<=''"
  "normExp NotIn = Some NotIn"
  by code_simp+

lemma logicMap_values:
  "logicMap ''&'' = Some ''&''" "logicMap ''&&'' = Some ''&''"
  "logicMap ''|'' = Some ''|''" "logicMap ''||'' = Some ''|''"
  by (simp_all add: logicMap_def)

lemma normLogic_named: "normLogic AND = Some ''&''" "normLogic OR = Some ''|''"
  by code_simp+


lemma convert_same_op:
  assumes "normExp e1 = Some v" "normExp e2 = Some v"
  shows "snd (convert (c\<lparr>Exp := e1\<rparr>)) = snd (convert (c\<lparr>Exp := e2\<rparr>))"
    and "snd (convert (c\<lparr>Exp := e2\<rparr>)) = None \<Longrightarrow>
         convert (c\<lparr>Exp := e1\<rparr>) = convert (c\<lparr>Exp := e2\<rparr>)"
  using normalizeExp_same_op [OF assms, of "coerceObjectID c"]
  by (simp_all add: convert_steps split: option.splits)

lemma convertLogic_same_logic:
  assumes "normLogic l1 = Some v" "normLogic l2 = Some v"
  shows "convertLogic (c\<lparr>Logic := l1\<rparr>) = convertLogic (c\<lparr>Logic := l2\<rparr>)"
  using assms by (simp add: convertLogic_normLogic)

lemma convert_same_logic:
  assumes "normLogic l1 = Some v" "normLogic l2 = Some v"
  shows "snd (convert (c\<lparr>Logic := l1\<rparr>)) = snd (convert (c\<lparr>Logic := l2\<rparr>))"
    and "snd (convert (c\<lparr>Logic := l2\<rparr>)) = None \<Longrightarrow>
         convert (c\<lparr>Logic := l1\<rparr>) = convert (c\<lparr>Logic := l2\<rparr>)"
  using convert_Logic_cases [of c] assms
  by (auto simp: convertLogic_normLogic)

lemma exp_alias_canonical:
  assumes "(a, n) \<in> set [(''='', Eq), (''!='', Neq), (''>'', Gt), (''>='', Gte), (''<'', Lt),
                          (''<='', Lte), (''notin'', NotIn), (''not in'', NotIn)]"
    and "ToLower e = a"
  shows "\<exists>v. normExp e = Some v \<and> normExp n = Some v"
proof -
  from assms have "e \<noteq> []" by (auto dest: ToLower_ne [of e])
  then have "normExp e = expMap a"
    using assms(2) by (simp add: normExp_def)
  with assms(1) show ?thesis
    by (auto simp: expMap_values normExp_named)
qed

lemma logic_alias_canonical:
  assumes "(a, n) \<in> set [(''&'', AND), (''&&'', AND), (''|'', OR), (''||'', OR)]"
    and "ToLower lg = a"
  shows "\<exists>v. normLogic lg = Some v \<and> normLogic n = Some v"
proof -
  from assms have "lg \<noteq> []" by (auto dest: ToLower_ne [of lg])
  then have "normLogic lg = logicMap a"
    using assms(2) by (simp add: normLogic_def)
  with assms(1) show ?thesis
    by (auto simp: logicMap_values normLogic_named)
qed

subsection \<open>A rejected column makes the call fail\<close>

lemma normExp_empty [simp]: "normExp [] = Some eqSymbol"
  by code_simp

lemma checkSameLogic_type:
  "checkSameLogic cs = (t, None, None) \<Longrightarrow> t = allLogicAnd \<or> t = allLogicOr"
  by (auto simp: checkSameLogic_def Let_def split: prod.splits option.splits if_splits)

lemma convertMultiColumns_fails:
  assumes "c \<in> set (Columns p)" "snd (convert c) \<noteq> None"
    and "fst (snd (checkSameLogic (Columns p))) = None"
  shows "snd (convertMultiColumns p wl) \<noteq> None"
proof (cases "checkSameLogic (Columns p)")
  case (fields t g e)
  with assms(3) have g: "g = None" by simp
  show ?thesis
  proof (cases e)
    case (Some err)
    with fields show ?thesis by (simp add: convertMultiColumns_def)
  next
    case None
    with fields g checkSameLogic_type [of "Columns p" t] have t: "t = allLogicAnd \<or> t = allLogicOr"
      by simp
    from assms have a: "isl (allLogicAnd_loop wl (Columns p) [])"
      by (auto simp: allLogicAnd_loop_isl)
    from assms have b: "isl (allLogicOr_loop (Columns p) [])"
      by (auto simp: allLogicOr_loop_isl)
    from t a b fields g None show ?thesis
      by (auto simp: convertMultiColumns_def split: sum.splits)
  qed
qed

lemma ConvertToMongoFilter_fails:
  assumes "c \<in> set (Columns p)" "snd (convert c) \<noteq> None"
    and "fst (snd (checkSameLogic (Columns p))) = None"
  shows "snd (snd (ConvertToMongoFilter p opts)) \<noteq> None"
proof (cases "validated opts p")
  case False
  then show ?thesis using ConvertToMongoFilter_rejected [of opts p] by auto
next
  case True
  consider (one) c0 where "Columns p = [c0]"
    | (two) c0 c1 where "Columns p = [c0, c1]"
    | (many) "3 \<le> length (Columns p)"
    using assms(1) by (cases "Columns p"; cases "tl (Columns p)"; cases "tl (tl (Columns p))") auto
  then show ?thesis
  proof cases
    case one
    with assms show ?thesis
      by (auto simp: ConvertToMongoFilter_1 [OF True one] split: option.splits)
  next
    case two
    with assms show ?thesis
      by (auto simp: ConvertToMongoFilter_2 [OF True two] split: option.splits)
  next
    case many
    with convertMultiColumns_fails [OF assms] show ?thesis
      by (simp add: ConvertToMongoFilter_many [OF True many])
  qed
qed

subsection \<open>The general builder on short lists\<close>

lemma normLogic_range: "normLogic lg = Some v \<Longrightarrow> v = andSymbol1 \<or> v = orSymbol1"
  by (auto simp: normLogic_def logicMap_def split: if_splits)

lemma checkName_no_whitelist: "checkName None c = None \<longleftrightarrow> Name c \<noteq> []"
  by (simp add: checkName_def)

lemma convertMultiColumns_0:
  "Columns p = [] \<Longrightarrow> convertMultiColumns p wl = (Some [], None)"
  by (simp add: convertMultiColumns_def checkSameLogic_def)

lemma convertMultiColumns_1:
  assumes "Columns p = [c0]"
  shows "convertMultiColumns p wl =
     (case checkName wl c0 of
        Some err \<Rightarrow> (None, Some err)
      | None \<Rightarrow>
          (case snd (convert c0) of
             Some err \<Rightarrow> (None, Some err)
           | None \<Rightarrow> (Some [(''$and'', VArray [predicate (normalized c0)])], None)))"
  using assms
  by (cases "convert c0")
     (simp add: convertMultiColumns_def checkSameLogic_def appendCondition_empty normalized_def
        split: option.splits)

lemma convertMultiColumns_2:
  assumes "Columns p = [c0, c1]"
  shows "convertMultiColumns p wl =
     (case normLogic (Logic c0) of
        None \<Rightarrow> (None, Some (UnknownLogic (Logic c0)))
      | Some v \<Rightarrow>
          if v = orSymbol1 then
            (case snd (convert c0) of
               Some err \<Rightarrow> (None, Some err)
             | None \<Rightarrow>
                 (case snd (convert c1) of
                    Some err \<Rightarrow> (None, Some err)
                  | None \<Rightarrow>
                      (Some [(''$or'', VArray [predicate (normalized c0), predicate (normalized c1)])],
                       None)))
          else
            (case checkName wl c0 of
               Some err \<Rightarrow> (None, Some err)
             | None \<Rightarrow>
                 (case snd (convert c0) of
                    Some err \<Rightarrow> (None, Some err)
                  | None \<Rightarrow>
                      (case checkName wl c1 of
                         Some err \<Rightarrow> (None, Some err)
                       | None \<Rightarrow>
                           (case snd (convert c1) of
                              Some err \<Rightarrow> (None, Some err)
                            | None \<Rightarrow>
                                (Some [(''$and'', VArray [predicate (normalized c0),
                                                         predicate (normalized c1)])],
                                 None))))))"
  using assms
  by (cases "convert c0"; cases "convert c1")
     (simp add: convertMultiColumns_def checkSameLogic_def convertLogic_normLogic
        appendCondition_empty appendCondition_single normalized_def
        split: option.splits)


lemma two_columns_same_filter:
  assumes v: "validated opts p" and cols: "Columns p = [c0, c1]"
    and h: "whitelistNames (options opts) = None \<or> normLogic (Logic c0) \<noteq> Some orSymbol1"
  shows "fst (snd (ConvertToMongoFilter p opts)) =
           fst (convertMultiColumns p (whitelistNames (options opts)))"
    and "snd (snd (ConvertToMongoFilter p opts)) = None \<longleftrightarrow>
           snd (convertMultiColumns p (whitelistNames (options opts))) = None"
proof -
  let ?wl = "whitelistNames (options opts)"
  note F = ConvertToMongoFilter_2 [OF v cols]
  note G = convertMultiColumns_2 [OF cols, of ?wl]
  have both: "fst (snd (ConvertToMongoFilter p opts)) = fst (convertMultiColumns p ?wl) \<and>
      (snd (snd (ConvertToMongoFilter p opts)) = None \<longleftrightarrow>
       snd (convertMultiColumns p ?wl) = None)"
  proof (cases "snd (convert c0)")
    case (Some err)
    then have "normLogic (Logic c0) = None \<or> (\<exists>v. normLogic (Logic c0) = Some v)" by auto
    with Some show ?thesis
      by (auto simp: F G split: option.splits)
  next
    case None
    from convert_ok_Logic [OF None] have lg: "normLogic (Logic c0) = Some (Logic (normalized c0))"
      by (auto simp: normalized_def)
    from normLogic_range [OF lg]
    have rng: "Logic (normalized c0) = andSymbol1 \<or> Logic (normalized c0) = orSymbol1" .
    from convert_ok_Name [OF None] have n0: "Name c0 \<noteq> []" .
    show ?thesis
    proof (cases "snd (convert c1)")
      case (Some err)
      with None lg show ?thesis
        by (auto simp: F G split: option.splits)
    next
      case c1ok: None
      from convert_ok_Name [OF c1ok] have n1: "Name c1 \<noteq> []" .
      show ?thesis
      proof (cases "Logic (normalized c0) = orSymbol1")
        case True
        with h lg have "?wl = None" by simp
        with n0 n1 have "checkName ?wl c0 = None" "checkName ?wl c1 = None"
          by (simp_all add: checkName_no_whitelist)
        with True None c1ok lg show ?thesis
          by (simp add: F G)
      next
        case False
        with rng have "Logic (normalized c0) = andSymbol1" by simp
        with None c1ok lg show ?thesis
          by (auto simp: F G split: option.splits)
      qed
    qed
  qed
  from both show "fst (snd (ConvertToMongoFilter p opts)) = fst (convertMultiColumns p ?wl)"
    by simp
  from both show "snd (snd (ConvertToMongoFilter p opts)) = None \<longleftrightarrow>
      snd (convertMultiColumns p ?wl) = None"
    by simp
qed

subsection \<open>What a call writes\<close>

lemma ConvertToMongoFilter_frame:
  "Page (fst (ConvertToMongoFilter p opts)) = Page p \<and>
   Limit (fst (ConvertToMongoFilter p opts)) = Limit p \<and>
   Sort (fst (ConvertToMongoFilter p opts)) = Sort p \<and>
   Size (fst (ConvertToMongoFilter p opts)) = Size p \<and>
   length (Columns (fst (ConvertToMongoFilter p opts))) = length (Columns p)"
  by (simp add: ConvertToMongoFilter_def Let_def split: option.splits prod.splits)

lemma ConvertToMongoFilter_many_unchanged:
  assumes "3 \<le> length (Columns p)"
  shows "fst (ConvertToMongoFilter p opts) = p"
proof (cases "validated opts p")
  case True
  then show ?thesis by (simp add: ConvertToMongoFilter_many [OF True assms])
next
  case False
  then show ?thesis using ConvertToMongoFilter_rejected [of opts p] by auto
qed

lemma ConvertToMongoFilter_short_normalized:
  assumes "length (Columns p) \<le> 2" "snd (snd (ConvertToMongoFilter p opts)) = None"
  shows "Columns (fst (ConvertToMongoFilter p opts)) = map normalized (Columns p)"
proof (cases "validated opts p")
  case False
  with assms(2) show ?thesis using ConvertToMongoFilter_rejected [of opts p] by auto
next
  case True
  consider (zero) "Columns p = []" | (one) c0 where "Columns p = [c0]"
    | (two) c0 c1 where "Columns p = [c0, c1]"
    using assms(1) by (cases "Columns p"; cases "tl (Columns p)"; cases "tl (tl (Columns p))") auto
  then show ?thesis
  proof cases
    case zero
    then show ?thesis by (simp add: ConvertToMongoFilter_0 [OF True])
  next
    case one
    with assms(2) show ?thesis
      by (auto simp: ConvertToMongoFilter_1 [OF True one] split: option.splits)
  next
    case two
    with assms(2) show ?thesis
      by (auto simp: ConvertToMongoFilter_2 [OF True two] split: option.splits)
  qed
qed

subsection \<open>Exchanging the last column\<close>

text \<open>
  Two columns are exchangeable in a loop when \<^verbatim>\<open>convert\<close> returns the same error for
  both and, if none, builds the same predicate.
\<close>

lemma convert_case_same:
  assumes "snd (convert a) = snd (convert b)"
    and "predicate (normalized a) = predicate (normalized b)"
  shows "(case convert a of (a', Some err) \<Rightarrow> Inl err
            | (a', None) \<Rightarrow> k (VDoc [(Name a', Value a')])) =
         (case convert b of (b', Some err) \<Rightarrow> Inl err
            | (b', None) \<Rightarrow> k (VDoc [(Name b', Value b')]))"
  using assms
  by (cases "convert a"; cases "convert b")
     (auto simp: normalized_def predicate_def split: option.splits)

lemma allLogicAnd_loop_last:
  assumes "checkName wl c1 = checkName wl c2"
    and "snd (convert c1) = snd (convert c2)"
    and "predicate (normalized c1) = predicate (normalized c2)"
  shows "allLogicAnd_loop wl (cs @ [c1]) flt = allLogicAnd_loop wl (cs @ [c2]) flt"
proof (induction cs arbitrary: flt)
  case Nil
  show ?case
  proof (cases "snd (convert c1)")
    case None
    with assms(2) have "snd (convert c2) = None" by simp
    with None assms(1,3) show ?thesis
      by (simp add: convert_ok_pair appendCondition_predicate [OF assms(3)] split: option.splits)
  next
    case (Some err)
    with assms(2) have "snd (convert c2) = Some err" by simp
    with Some assms(1) show ?thesis
      by (cases "convert c1"; cases "convert c2") (simp split: option.splits)
  qed
next
  case (Cons c cs)
  then show ?case by (simp split: option.splits prod.splits)
qed

lemma allLogicOr_loop_last:
  assumes "snd (convert c1) = snd (convert c2)"
    and "predicate (normalized c1) = predicate (normalized c2)"
  shows "allLogicOr_loop (cs @ [c1]) flt = allLogicOr_loop (cs @ [c2]) flt"
proof (induction cs arbitrary: flt)
  case Nil
  show ?case
  proof (cases "snd (convert c1)")
    case None
    with assms(1) have "snd (convert c2) = None" by simp
    with None show ?thesis
      by (simp add: convert_ok_pair appendCondition_predicate [OF assms(2)])
  next
    case (Some err)
    with assms(1) have "snd (convert c2) = Some err" by simp
    with Some show ?thesis
      by (cases "convert c1"; cases "convert c2") simp
  qed
next
  case (Cons c cs)
  then show ?case by (simp split: option.splits prod.splits)
qed

lemma columnAt_last:
  "columnAt (cs @ [c1]) i = columnAt (cs @ [c2]) i \<or>
   (columnAt (cs @ [c1]) i = Some c1 \<and> columnAt (cs @ [c2]) i = Some c2)"
  by (auto simp: columnAt_def nth_append)

lemma andConditions_loop_last:
  assumes "snd (convert c1) = snd (convert c2)"
    and "predicate (normalized c1) = predicate (normalized c2)"
  shows "andConditions_loop (cs @ [c1]) idxs acc = andConditions_loop (cs @ [c2]) idxs acc"
proof (induction idxs arbitrary: acc)
  case Nil
  show ?case by simp
next
  case (Cons i idxs)
  from columnAt_last [of cs c1 i c2] show ?case
  proof
    assume "columnAt (cs @ [c1]) i = columnAt (cs @ [c2]) i"
    with Cons.IH show ?thesis
      by (simp split: option.splits prod.splits)
  next
    assume at: "columnAt (cs @ [c1]) i = Some c1 \<and> columnAt (cs @ [c2]) i = Some c2"
    have "(case convert c1 of (a', Some err) \<Rightarrow> Inl err
            | (a', None) \<Rightarrow>
                andConditions_loop (cs @ [c2]) idxs (acc @ [VDoc [(Name a', Value a')]])) =
          (case convert c2 of (b', Some err) \<Rightarrow> Inl err
            | (b', None) \<Rightarrow>
                andConditions_loop (cs @ [c2]) idxs (acc @ [VDoc [(Name b', Value b')]]))"
      by (rule convert_case_same [OF assms])
    with at Cons.IH show ?thesis
      by (simp split: option.splits prod.splits)
  qed
qed

lemma orConditions_loop_last:
  assumes "snd (convert c1) = snd (convert c2)"
    and "predicate (normalized c1) = predicate (normalized c2)"
  shows "orConditions_loop (cs @ [c1]) groups acc = orConditions_loop (cs @ [c2]) groups acc"
proof (induction groups arbitrary: acc)
  case Nil
  show ?case by simp
next
  case (Cons indexes groups)
  show ?case
  proof (cases "length indexes = 1")
    case False
    with Cons.IH andConditions_loop_last [OF assms, of cs indexes "[]"] show ?thesis
      by (simp split: sum.splits)
  next
    case True
    from columnAt_last [of cs c1 "indexes ! 0" c2] show ?thesis
    proof
      assume "columnAt (cs @ [c1]) (indexes ! 0) = columnAt (cs @ [c2]) (indexes ! 0)"
      with True Cons.IH show ?thesis
        by (simp split: option.splits prod.splits)
    next
      assume at: "columnAt (cs @ [c1]) (indexes ! 0) = Some c1 \<and>
                  columnAt (cs @ [c2]) (indexes ! 0) = Some c2"
      have "(case convert c1 of (a', Some err) \<Rightarrow> Inl err
              | (a', None) \<Rightarrow>
                  orConditions_loop (cs @ [c2]) groups (acc @ [VDoc [(Name a', Value a')]])) =
            (case convert c2 of (b', Some err) \<Rightarrow> Inl err
              | (b', None) \<Rightarrow>
                  orConditions_loop (cs @ [c2]) groups (acc @ [VDoc [(Name b', Value b')]]))"
        by (rule convert_case_same [OF assms])
      with at True Cons.IH show ?thesis
        by (simp split: option.splits prod.splits)
    qed
  qed
qed

lemma convertMultiColumns_last:
  assumes "Columns p1 = cs @ [c1]" "Columns p2 = cs @ [c2]"
    and "checkName wl c1 = checkName wl c2"
    and "snd (convert c1) = snd (convert c2)"
    and "predicate (normalized c1) = predicate (normalized c2)"
  shows "convertMultiColumns p1 wl = convertMultiColumns p2 wl"
  using checkSameLogic_last [of cs c1 c2]
    allLogicAnd_loop_last [OF assms(3,4,5), of cs "[]"]
    allLogicOr_loop_last [OF assms(4,5), of cs "[]"]
    orConditions_loop_last [OF assms(4,5), of cs _ "[]"]
  by (simp add: convertMultiColumns_def assms(1,2) split: prod.splits option.splits)


lemma predicate_eq: "predicate a = predicate b \<longleftrightarrow> Name a = Name b \<and> Value a = Value b"
  by (simp add: predicate_def)

lemma ConvertToMongoFilter_last:
  assumes v: "validated opts p1" "validated opts p2"
    and cols: "Columns p1 = cs @ [c1]" "Columns p2 = cs @ [c2]"
    and nm: "checkName (whitelistNames (options opts)) c1 = checkName (whitelistNames (options opts)) c2"
    and er: "snd (convert c1) = snd (convert c2)"
    and pr: "predicate (normalized c1) = predicate (normalized c2)"
  shows "snd (ConvertToMongoFilter p1 opts) = snd (ConvertToMongoFilter p2 opts)"
proof -
  consider (one) "cs = []" | (two) c0 where "cs = [c0]" | (many) "2 \<le> length cs"
    by (cases cs; cases "tl cs") auto
  then show ?thesis
  proof cases
    case one
    with cols have c: "Columns p1 = [c1]" "Columns p2 = [c2]" by simp_all
    from pr have "Name (normalized c1) = Name (normalized c2)"
      "Value (normalized c1) = Value (normalized c2)"
      by (simp_all add: predicate_eq)
    with nm er show ?thesis
      by (simp add: ConvertToMongoFilter_1 [OF v(1) c(1)] ConvertToMongoFilter_1 [OF v(2) c(2)]
            split: option.splits)
  next
    case two
    with cols have c: "Columns p1 = [c0, c1]" "Columns p2 = [c0, c2]" by simp_all
    from nm er pr show ?thesis
      by (simp add: ConvertToMongoFilter_2 [OF v(1) c(1)] ConvertToMongoFilter_2 [OF v(2) c(2)]
            split: option.splits)
  next
    case many
    with cols have l: "3 \<le> length (Columns p1)" "3 \<le> length (Columns p2)" by simp_all
    show ?thesis
      by (simp add: ConvertToMongoFilter_many [OF v(1) l(1)] ConvertToMongoFilter_many [OF v(2) l(2)]
            convertMultiColumns_last [OF cols nm er pr])
  qed
qed

subsection \<open>Suffixes\<close>

lemma HasSuffix_iff: "HasSuffix s suf \<longleftrightarrow> (\<exists>b. s = b @ suf)"
proof
  assume "HasSuffix s suf"
  then have "drop (length s - length suf) s = suf"
    by (simp add: HasSuffix_def)
  then have "s = take (length s - length suf) s @ suf"
    by (metis append_take_drop_id)
  then show "\<exists>b. s = b @ suf" ..
next
  assume "\<exists>b. s = b @ suf"
  then show "HasSuffix s suf"
    by (auto simp: HasSuffix_def)
qed

lemma TrimSuffix_append [simp]: "TrimSuffix (b @ suf) suf = b"
  by (simp add: TrimSuffix_def HasSuffix_def)

lemma TrimSuffix_other: "\<forall>b. s \<noteq> b @ suf \<Longrightarrow> TrimSuffix s suf = s"
  by (simp add: TrimSuffix_def HasSuffix_iff)

subsection \<open>The shape of a result\<close>

lemma convertMultiColumns_shape:
  "(\<exists>f. convertMultiColumns p wl = (Some f, None)) \<or>
   (\<exists>e. convertMultiColumns p wl = (None, Some e))"
  by (auto simp: convertMultiColumns_def split: prod.splits option.splits sum.splits)

lemma ConvertToMongoFilter_shape:
  "(\<exists>p' f. ConvertToMongoFilter p opts = (p', Some f, None)) \<or>
   (\<exists>p' e. ConvertToMongoFilter p opts = (p', None, Some e))"
  using convertMultiColumns_shape
    [of p "whitelistNames (apply_opts \<lparr>whitelistNames = None, validateFn = None\<rparr> opts)"]
  by (auto simp: ConvertToMongoFilter_def Let_def split: prod.splits option.splits)

subsection \<open>Errors and the validation function\<close>

text \<open>
  Claim C5. Whenever \<^verbatim>\<open>ConvertToMongoFilter\<close> returns an error, the filter it returns
  is \<^verbatim>\<open>nil\<close>. If a validation function is configured and rejects the raw column list,
  the call returns that error at once: the parameters are as they were, so no column was
  normalised, and neither the whitelist nor the columns' contents matter.
\<close>

theorem error_without_filter_validate_first:
  "(snd (snd (ConvertToMongoFilter p opts)) \<noteq> None \<longrightarrow>
      fst (snd (ConvertToMongoFilter p opts)) = None) \<and>
   (validateFn (apply_opts \<lparr>whitelistNames = None, validateFn = None\<rparr> opts) = Some fn \<longrightarrow>
      fn (Columns p) = Some err \<longrightarrow>
      ConvertToMongoFilter p opts = (p, None, Some err))"
proof
  show "snd (snd (ConvertToMongoFilter p opts)) \<noteq> None \<longrightarrow>
      fst (snd (ConvertToMongoFilter p opts)) = None"
    using ConvertToMongoFilter_shape [of p opts] by auto
next
  show "validateFn (apply_opts \<lparr>whitelistNames = None, validateFn = None\<rparr> opts) = Some fn \<longrightarrow>
      fn (Columns p) = Some err \<longrightarrow>
      ConvertToMongoFilter p opts = (p, None, Some err)"
    by (simp add: ConvertToMongoFilter_def)
qed

text \<open>
  The theorem at a list of one column whose name the whitelist forbids, with a validation
  function that wants two columns: the validation error is returned, not the whitelist's.
\<close>

theorem error_without_filter_validate_first_witness:
  "snd (snd (ConvertToMongoFilter
      \<lparr>Page = 1, Limit = 10, Sort = ''-id'',
       Columns = [\<lparr>Name = ''b'', Exp = [], Value = VInt 1, Logic = []\<rparr>], Size = 0\<rparr>
      [WithWhitelistNames (Some [''a'' \<mapsto> True]),
       WithValidateFn (Some (\<lambda>cs. if length cs < 2 then Some (Custom ''too few'') else None))])) \<noteq> None \<and>
   validateFn (apply_opts \<lparr>whitelistNames = None, validateFn = None\<rparr>
      [WithWhitelistNames (Some [''a'' \<mapsto> True]),
       WithValidateFn (Some (\<lambda>cs. if length cs < 2 then Some (Custom ''too few'') else None))])
     = Some (\<lambda>cs. if length cs < 2 then Some (Custom ''too few'') else None) \<and>
   ConvertToMongoFilter
      \<lparr>Page = 1, Limit = 10, Sort = ''-id'',
       Columns = [\<lparr>Name = ''b'', Exp = [], Value = VInt 1, Logic = []\<rparr>], Size = 0\<rparr>
      [WithWhitelistNames (Some [''a'' \<mapsto> True]),
       WithValidateFn (Some (\<lambda>cs. if length cs < 2 then Some (Custom ''too few'') else None))]
     = (\<lparr>Page = 1, Limit = 10, Sort = ''-id'',
         Columns = [\<lparr>Name = ''b'', Exp = [], Value = VInt 1, Logic = []\<rparr>], Size = 0\<rparr>,
        None, Some (Custom ''too few''))"
  using error_without_filter_validate_first
    [of "\<lparr>Page = 1, Limit = 10, Sort = ''-id'',
          Columns = [\<lparr>Name = ''b'', Exp = [], Value = VInt 1, Logic = []\<rparr>], Size = 0\<rparr>"
        "[WithWhitelistNames (Some [''a'' \<mapsto> True]),
          WithValidateFn (Some (\<lambda>cs. if length cs < 2 then Some (Custom ''too few'') else None))]"
        "\<lambda>cs. if length cs < 2 then Some (Custom ''too few'') else None"
        "Custom ''too few''"]
  by (simp add: apply_opts_def WithWhitelistNames_def WithValidateFn_def)

subsection \<open>Mixed grouping\<close>

text \<open>
  Claim C1. In a list of mixed logic the runs should partition the columns: each column
  marked OR ends its run, the next run starts right after it, no column is in two runs
  and none is left out. The code does not do that. With the three columns a (or),
  b (and), c the groups are \<open>[0]\<close> and \<open>[2]\<close>: column b is in no run and the filter is
  \<open>{$or: [{a: 1}, {c: 3}]}\<close>. With five columns and OR at the indexes 1 and 3 the groups
  are \<open>[0, 1]\<close>, \<open>[1, 2, 3]\<close> and \<open>[4]\<close>: column 1 is in two runs. In
  \<^verbatim>\<open>groupingIndex\<close> the loop starts a group at \<^verbatim>\<open>lastIndex\<close> and the code after the loop at
  \<^verbatim>\<open>lastIndex + 1\<close>, while \<^verbatim>\<open>lastIndex\<close> is sometimes the OR index and sometimes the
  index after it.
\<close>

theorem mixed_grouping_drops_and_repeats:
  "groupingIndex 3 [0] = [[0], [2]] \<and>
   groupingIndex 5 [1, 3] = [[0, 1], [1, 2, 3], [4]] \<and>
   snd (ConvertToMongoFilter
     \<lparr>Page = 0, Limit = 10, Sort = [], Columns =
        [\<lparr>Name = ''a'', Exp = [], Value = VInt 1, Logic = ''or''\<rparr>,
         \<lparr>Name = ''b'', Exp = [], Value = VInt 2, Logic = ''and''\<rparr>,
         \<lparr>Name = ''c'', Exp = [], Value = VInt 3, Logic = []\<rparr>], Size = 0\<rparr> [])
     = (Some [(''$or'', VArray [VDoc [(''a'', VInt 1)], VDoc [(''c'', VInt 3)]])], None) \<and>
   snd (ConvertToMongoFilter
     \<lparr>Page = 0, Limit = 10, Sort = [], Columns =
        [\<lparr>Name = ''a'', Exp = [], Value = VInt 1, Logic = ''and''\<rparr>,
         \<lparr>Name = ''b'', Exp = [], Value = VInt 2, Logic = ''or''\<rparr>,
         \<lparr>Name = ''c'', Exp = [], Value = VInt 3, Logic = ''and''\<rparr>,
         \<lparr>Name = ''d'', Exp = [], Value = VInt 4, Logic = ''or''\<rparr>,
         \<lparr>Name = ''e'', Exp = [], Value = VInt 5, Logic = []\<rparr>], Size = 0\<rparr> [])
     = (Some [(''$or'', VArray
          [VDoc [(''$and'', VArray [VDoc [(''a'', VInt 1)], VDoc [(''b'', VInt 2)]])],
           VDoc [(''$and'', VArray [VDoc [(''b'', VInt 2)], VDoc [(''c'', VInt 3)],
                                    VDoc [(''d'', VInt 4)]])],
           VDoc [(''e'', VInt 5)]])], None)"
  by code_simp

subsection \<open>The whitelist\<close>

text \<open>
  Claim C2. A column whose name is not in the configured whitelist should make the call
  fail, whatever the length of the list and its logic. The code calls \<^verbatim>\<open>checkName\<close> in
  the paths for one and two columns and in the all-AND loop of \<^verbatim>\<open>convertMultiColumns\<close>,
  but not in the all-OR loop and not in the mixed path. With the whitelist \<open>{a}\<close>, three
  columns joined by OR whose first is named b give a filter on b and no error; the same
  columns joined by AND are rejected.
\<close>

theorem whitelist_not_checked_outside_and_path:
  "snd (ConvertToMongoFilter
     \<lparr>Page = 0, Limit = 10, Sort = [], Columns =
        [\<lparr>Name = ''b'', Exp = [], Value = VInt 1, Logic = ''or''\<rparr>,
         \<lparr>Name = ''a'', Exp = [], Value = VInt 2, Logic = ''or''\<rparr>,
         \<lparr>Name = ''a'', Exp = [], Value = VInt 3, Logic = []\<rparr>], Size = 0\<rparr>
     [WithWhitelistNames (Some [''a'' \<mapsto> True])])
     = (Some [(''$or'', VArray [VDoc [(''b'', VInt 1)], VDoc [(''a'', VInt 2)],
                               VDoc [(''a'', VInt 3)]])], None) \<and>
   snd (ConvertToMongoFilter
     \<lparr>Page = 0, Limit = 10, Sort = [], Columns =
        [\<lparr>Name = ''a'', Exp = [], Value = VInt 1, Logic = ''and''\<rparr>,
         \<lparr>Name = ''b'', Exp = [], Value = VInt 2, Logic = ''or''\<rparr>,
         \<lparr>Name = ''a'', Exp = [], Value = VInt 3, Logic = []\<rparr>], Size = 0\<rparr>
     [WithWhitelistNames (Some [''a'' \<mapsto> True])])
     = (Some [(''$or'', VArray
          [VDoc [(''$and'', VArray [VDoc [(''a'', VInt 1)], VDoc [(''b'', VInt 2)]])],
           VDoc [(''a'', VInt 3)]])], None) \<and>
   snd (ConvertToMongoFilter
     \<lparr>Page = 0, Limit = 10, Sort = [], Columns =
        [\<lparr>Name = ''b'', Exp = [], Value = VInt 1, Logic = ''and''\<rparr>,
         \<lparr>Name = ''a'', Exp = [], Value = VInt 2, Logic = ''and''\<rparr>,
         \<lparr>Name = ''a'', Exp = [], Value = VInt 3, Logic = []\<rparr>], Size = 0\<rparr>
     [WithWhitelistNames (Some [''a'' \<mapsto> True])])
     = (None, Some (NameNotAllowed ''b''))"
  by code_simp

subsection \<open>Lists of one logic\<close>

text \<open>
  Claim C8. Take a list with at least one internal logic value, that is, of two or more
  columns, each of which passes the name check and normalises without error. If every
  internal logic value (the last column's does not count) normalises to AND, the filter
  is one \<open>$and\<close> group holding the predicates of the normalised columns in the order of
  the columns; if every internal logic value normalises to OR, it is one \<open>$or\<close> group
  holding the same predicates in the same order.
\<close>

theorem single_logic_one_group:
  assumes "2 \<le> length (Columns p)"
    and "validated opts p"
    and "\<forall>c\<in>set (Columns p).
           checkName (whitelistNames (options opts)) c = None \<and> snd (convert c) = None"
  shows "((\<forall>c\<in>set (butlast (Columns p)). normLogic (Logic c) = Some andSymbol1) \<longrightarrow>
            snd (ConvertToMongoFilter p opts) =
              (Some [(''$and'', VArray (map (\<lambda>c. predicate (normalized c)) (Columns p)))], None)) \<and>
         ((\<forall>c\<in>set (butlast (Columns p)). normLogic (Logic c) = Some orSymbol1) \<longrightarrow>
            snd (ConvertToMongoFilter p opts) =
              (Some [(''$or'', VArray (map (\<lambda>c. predicate (normalized c)) (Columns p)))], None))"
proof (cases "length (Columns p) = 2")
  case True
  then obtain c0 c1 where cols: "Columns p = [c0, c1]"
    by (cases "Columns p"; cases "tl (Columns p)") auto
  with assms(3) have ok: "checkName (whitelistNames (options opts)) c0 = None"
    "checkName (whitelistNames (options opts)) c1 = None"
    "snd (convert c0) = None" "snd (convert c1) = None"
    by simp_all
  from convert_ok_Logic [OF ok(3)]
  have lg: "normLogic (Logic c0) = Some (Logic (normalized c0))"
    by (auto simp: normalized_def)
  show ?thesis
    using ConvertToMongoFilter_2 [OF assms(2) cols] ok lg
    by (simp add: cols)
next
  case False
  with assms(1) have many: "3 \<le> length (Columns p)" by simp
  then have ne: "Columns p \<noteq> []" by auto
  from assms(3) have conv: "\<forall>c\<in>set (Columns p). snd (convert c) = None" by simp
  show ?thesis
    using ConvertToMongoFilter_many [OF assms(2) many]
      convertMultiColumns_all_and [OF ne _ assms(3)]
      convertMultiColumns_all_or [OF assms(1) _ conv, of "whitelistNames (options opts)"]
    by simp
qed


theorem single_logic_one_group_witness:
  "snd (ConvertToMongoFilter
      \<lparr>Page = 0, Limit = 10, Sort = [], Columns =
         [\<lparr>Name = ''a'', Exp = ''eq'', Value = VInt 1, Logic = ''AND''\<rparr>,
          \<lparr>Name = ''b'', Exp = ''>'', Value = VInt 2, Logic = []\<rparr>,
          \<lparr>Name = ''c'', Exp = ''in'', Value = VString ''x,y'', Logic = ''or''\<rparr>], Size = 0\<rparr>
      [WithWhitelistNames (Some [''a'' \<mapsto> True, ''b'' \<mapsto> True, ''c'' \<mapsto> True])])
     = (Some [(''$and'', VArray
          [VDoc [(''a'', VInt 1)],
           VDoc [(''b'', VDoc [(''$gt'', VInt 2)])],
           VDoc [(''c'', VDoc [(''$in'', VArray [VString ''x'', VString ''y''])])]])], None) \<and>
   snd (ConvertToMongoFilter
      \<lparr>Page = 0, Limit = 10, Sort = [], Columns =
         [\<lparr>Name = ''a'', Exp = [], Value = VInt 1, Logic = ''or''\<rparr>,
          \<lparr>Name = ''b'', Exp = ''neq'', Value = VInt 2, Logic = ''||''\<rparr>,
          \<lparr>Name = ''c'', Exp = [], Value = VBool True, Logic = []\<rparr>], Size = 0\<rparr> [])
     = (Some [(''$or'', VArray
          [VDoc [(''a'', VInt 1)],
           VDoc [(''b'', VDoc [(''$ne'', VInt 2)])],
           VDoc [(''c'', VBool True)]])], None)"
proof -
  let ?wl = "Some [''a'' \<mapsto> True, ''b'' \<mapsto> True, ''c'' \<mapsto> True]"
  let ?p = "\<lparr>Page = 0, Limit = 10, Sort = [], Columns =
         [\<lparr>Name = ''a'', Exp = ''eq'', Value = VInt 1, Logic = ''AND''\<rparr>,
          \<lparr>Name = ''b'', Exp = ''>'', Value = VInt 2, Logic = []\<rparr>,
          \<lparr>Name = ''c'', Exp = ''in'', Value = VString ''x,y'', Logic = ''or''\<rparr>], Size = 0\<rparr>"
  let ?q = "\<lparr>Page = 0, Limit = 10, Sort = [], Columns =
         [\<lparr>Name = ''a'', Exp = [], Value = VInt 1, Logic = ''or''\<rparr>,
          \<lparr>Name = ''b'', Exp = ''neq'', Value = VInt 2, Logic = ''||''\<rparr>,
          \<lparr>Name = ''c'', Exp = [], Value = VBool True, Logic = []\<rparr>], Size = 0\<rparr>"
  have p1: "2 \<le> length (Columns ?p)" by simp
  have p2: "validated [WithWhitelistNames ?wl] ?p" by simp
  have p3: "\<forall>c\<in>set (Columns ?p).
      checkName (whitelistNames (options [WithWhitelistNames ?wl])) c = None \<and> snd (convert c) = None"
    by code_simp
  have p4: "\<forall>c\<in>set (butlast (Columns ?p)). normLogic (Logic c) = Some andSymbol1"
    by code_simp
  have p5: "map (\<lambda>c. predicate (normalized c)) (Columns ?p) =
      [VDoc [(''a'', VInt 1)],
       VDoc [(''b'', VDoc [(''$gt'', VInt 2)])],
       VDoc [(''c'', VDoc [(''$in'', VArray [VString ''x'', VString ''y''])])]]"
    by code_simp
  have q1: "2 \<le> length (Columns ?q)" by simp
  have q2: "validated [] ?q" by simp
  have q3: "\<forall>c\<in>set (Columns ?q).
      checkName (whitelistNames (options [])) c = None \<and> snd (convert c) = None"
    by code_simp
  have q4: "\<forall>c\<in>set (butlast (Columns ?q)). normLogic (Logic c) = Some orSymbol1"
    by code_simp
  have q5: "map (\<lambda>c. predicate (normalized c)) (Columns ?q) =
      [VDoc [(''a'', VInt 1)],
       VDoc [(''b'', VDoc [(''$ne'', VInt 2)])],
       VDoc [(''c'', VBool True)]]"
    by code_simp
  from single_logic_one_group [OF p1 p2 p3] p4 p5
  have "snd (ConvertToMongoFilter ?p [WithWhitelistNames ?wl]) =
      (Some [(''$and'', VArray
          [VDoc [(''a'', VInt 1)],
           VDoc [(''b'', VDoc [(''$gt'', VInt 2)])],
           VDoc [(''c'', VDoc [(''$in'', VArray [VString ''x'', VString ''y''])])]])], None)"
    by metis
  moreover from single_logic_one_group [OF q1 q2 q3] q4 q5
  have "snd (ConvertToMongoFilter ?q []) =
      (Some [(''$or'', VArray
          [VDoc [(''a'', VInt 1)],
           VDoc [(''b'', VDoc [(''$ne'', VInt 2)])],
           VDoc [(''c'', VBool True)]])], None)"
    by metis
  ultimately show ?thesis by blast
qed

subsection \<open>Object identifiers\<close>

text \<open>
  Claim C7. Let a column that \<^verbatim>\<open>convert\<close> accepts for processing (its name is not empty)
  have as value a string of exactly 24 characters that \<^verbatim>\<open>ObjectIDFromHex\<close> parses. Then
  \<^verbatim>\<open>convert\<close> works on the parsed ObjectID instead of the string: the value of the
  column it leaves is the ObjectID, wrapped as the operator demands, and it is the bare
  ObjectID when the operator is equality. The name \<open>id\<close> has become \<open>_id\<close>; any other
  name ending in \<open>:oid\<close> has lost that suffix, so that a name \<open>b @ '':oid''\<close> has become
  \<open>b\<close>; every other name is unchanged.
\<close>

theorem objectid_coercion:
  assumes "Value c = VString s" "length s = 24" "ObjectIDFromHex s = Some oid" "Name c \<noteq> []"
  shows "Name (normalized c) =
           (if Name c = ''id'' then ''_id''
            else if HasSuffix (Name c) '':oid'' then TrimSuffix (Name c) '':oid''
            else Name c) \<and>
         Value (normalized c) =
           (case normExp (Exp c) of
              None \<Rightarrow> VObjectID oid
            | Some op \<Rightarrow> (case wrapValue op (VObjectID oid) of Inl err \<Rightarrow> VObjectID oid | Inr w \<Rightarrow> w)) \<and>
         (normExp (Exp c) = Some eqSymbol \<longrightarrow> Value (normalized c) = VObjectID oid) \<and>
         (Name c = ''id'' \<longrightarrow> Name (normalized c) = ''_id'') \<and>
         (\<forall>b. Name c = b @ '':oid'' \<longrightarrow> Name (normalized c) = b) \<and>
         (Name c \<noteq> ''id'' \<longrightarrow> (\<forall>b. Name c \<noteq> b @ '':oid'') \<longrightarrow> Name (normalized c) = Name c)"
proof -
  from assms have valid: "checkValid c = None"
    by (simp add: checkValid_def)
  from assms have "isObjectID (Value c) = Some oid"
    by (simp add: isObjectID_def)
  then have co: "coerceObjectID c =
      c\<lparr>Value := VObjectID oid,
        Name := (if Name c = ''id'' then ''_id''
                 else if HasSuffix (Name c) '':oid'' then TrimSuffix (Name c) '':oid''
                 else Name c)\<rparr>"
    by (simp add: coerceObjectID_def)
  have nz: "normalized c = fst (normalizeExp (coerceObjectID c))"
    using valid by (simp add: normalized_def convert_steps)
  then have name: "Name (normalized c) =
      (if Name c = ''id'' then ''_id''
       else if HasSuffix (Name c) '':oid'' then TrimSuffix (Name c) '':oid''
       else Name c)"
    by (simp add: co)
  from nz have val: "Value (normalized c) =
      (case normExp (Exp c) of
         None \<Rightarrow> VObjectID oid
       | Some op \<Rightarrow> (case wrapValue op (VObjectID oid) of Inl err \<Rightarrow> VObjectID oid | Inr w \<Rightarrow> w))"
    by (simp add: co normalizeExp_Value split: option.splits sum.splits)
  then have eq: "normExp (Exp c) = Some eqSymbol \<longrightarrow> Value (normalized c) = VObjectID oid"
    by simp
  have id: "Name c = ''id'' \<longrightarrow> Name (normalized c) = ''_id''"
    using name by simp
  have strip: "\<forall>b. Name c = b @ '':oid'' \<longrightarrow> Name (normalized c) = b"
  proof (intro allI impI)
    fix b assume b: "Name c = b @ '':oid''"
    then have "Name c \<noteq> ''id''" by auto
    moreover from b have "HasSuffix (Name c) '':oid''" by (auto simp: HasSuffix_iff)
    ultimately show "Name (normalized c) = b" using name b by simp
  qed
  have keep: "Name c \<noteq> ''id'' \<longrightarrow> (\<forall>b. Name c \<noteq> b @ '':oid'') \<longrightarrow> Name (normalized c) = Name c"
    using name by (simp add: HasSuffix_iff)
  from name val eq id strip keep show ?thesis by blast
qed

theorem objectid_coercion_witness:
  "normalized \<lparr>Name = ''id'', Exp = ''eq'', Value = VString ''507f1f77bcf86cd799439011'', Logic = []\<rparr> =
     \<lparr>Name = ''_id'', Exp = ''='',
      Value = VObjectID [0x50, 0x7f, 0x1f, 0x77, 0xbc, 0xf8, 0x6c, 0xd7, 0x99, 0x43, 0x90, 0x11],
      Logic = ''&''\<rparr> \<and>
   Name (normalized \<lparr>Name = ''id'', Exp = ''eq'', Value = VString ''507f1f77bcf86cd799439011'', Logic = []\<rparr>) = ''_id'' \<and>
   Value (normalized \<lparr>Name = ''id'', Exp = ''eq'', Value = VString ''507f1f77bcf86cd799439011'', Logic = []\<rparr>) =
     VObjectID [0x50, 0x7f, 0x1f, 0x77, 0xbc, 0xf8, 0x6c, 0xd7, 0x99, 0x43, 0x90, 0x11] \<and>
   Name (normalized \<lparr>Name = ''ref:oid'', Exp = [], Value = VString ''507f1f77bcf86cd799439011'', Logic = []\<rparr>) = ''ref'' \<and>
   Value (normalized \<lparr>Name = ''ref:oid'', Exp = [], Value = VString ''507f1f77bcf86cd799439011'', Logic = []\<rparr>) =
     VObjectID [0x50, 0x7f, 0x1f, 0x77, 0xbc, 0xf8, 0x6c, 0xd7, 0x99, 0x43, 0x90, 0x11] \<and>
   Name (normalized \<lparr>Name = ''user'', Exp = ''neq'', Value = VString ''507f1f77bcf86cd799439011'', Logic = []\<rparr>) = ''user''"
proof -
  let ?c = "\<lparr>Name = ''id'', Exp = ''eq'', Value = VString ''507f1f77bcf86cd799439011'', Logic = []\<rparr>"
  let ?d = "\<lparr>Name = ''ref:oid'', Exp = [], Value = VString ''507f1f77bcf86cd799439011'', Logic = []\<rparr>"
  let ?e = "\<lparr>Name = ''user'', Exp = ''neq'', Value = VString ''507f1f77bcf86cd799439011'', Logic = []\<rparr>"
  let ?oid = "[0x50, 0x7f, 0x1f, 0x77, 0xbc, 0xf8, 0x6c, 0xd7, 0x99, 0x43, 0x90, 0x11] :: byte list"
  have h2: "length ''507f1f77bcf86cd799439011'' = 24" by simp
  have h3: "ObjectIDFromHex ''507f1f77bcf86cd799439011'' = Some ?oid" by code_simp
  have c1: "Value ?c = VString ''507f1f77bcf86cd799439011''" by simp
  have c4: "Name ?c \<noteq> []" by simp
  have c5: "normExp (Exp ?c) = Some eqSymbol" by code_simp
  have c6: "Name ?c = ''id''" by simp
  have c7: "normalized ?c = \<lparr>Name = ''_id'', Exp = ''='', Value = VObjectID ?oid, Logic = ''&''\<rparr>"
    by code_simp
  from objectid_coercion [OF c1 h2 h3 c4] c5 c6
  have rc: "Name (normalized ?c) = ''_id''" "Value (normalized ?c) = VObjectID ?oid"
    by blast+
  have d1: "Value ?d = VString ''507f1f77bcf86cd799439011''" by simp
  have d4: "Name ?d \<noteq> []" by simp
  have d5: "normExp (Exp ?d) = Some eqSymbol" by simp
  have d6: "Name ?d = ''ref'' @ '':oid''" by simp
  from objectid_coercion [OF d1 h2 h3 d4] d5 d6
  have rd: "Name (normalized ?d) = ''ref''" "Value (normalized ?d) = VObjectID ?oid"
    by blast+
  have e1: "Value ?e = VString ''507f1f77bcf86cd799439011''" by simp
  have e4: "Name ?e \<noteq> []" by simp
  have e6: "Name ?e \<noteq> ''id''" by simp
  have "\<not> HasSuffix ''user'' '':oid''" by code_simp
  then have e7: "\<forall>b. Name ?e \<noteq> b @ '':oid''" by (simp add: HasSuffix_iff)
  from objectid_coercion [OF e1 h2 h3 e4] e6 e7
  have re: "Name (normalized ?e) = Name ?e" by blast
  from c7 rc rd re show ?thesis by simp
qed

subsection \<open>Aliases\<close>

text \<open>
  Claim C10. Besides the named tokens, \<^verbatim>\<open>convert\<close> accepts aliases, in any mix of upper
  and lower case. For \<^verbatim>\<open>Exp\<close> these are the symbols \<open>=\<close>, \<open>!=\<close>, \<open>>\<close>, \<open>>=\<close>, \<open><\<close>, \<open><=\<close>
  for \<open>eq\<close>, \<open>neq\<close>, \<open>gt\<close>, \<open>gte\<close>, \<open>lt\<close>, \<open>lte\<close>, and \<open>notin\<close> and \<open>not in\<close> for \<open>nin\<close>; for
  \<^verbatim>\<open>Logic\<close> they are \<open>&\<close> and \<open>&&\<close> for \<open>and\<close>, \<open>|\<close> and \<open>||\<close> for \<open>or\<close>. An alias and its
  named token normalise to the same canonical form, so a column gives the same result
  with either: \<^verbatim>\<open>convert\<close> returns the same error or, when it succeeds, the same
  normalised column, and \<^verbatim>\<open>convertLogic\<close> returns the same in every case.
\<close>

theorem aliases_behave_as_named_tokens:
  "((a, n) \<in> set [(''='', Eq), (''!='', Neq), (''>'', Gt), (''>='', Gte), (''<'', Lt),
                    (''<='', Lte), (''notin'', NotIn), (''not in'', NotIn)] \<longrightarrow>
    ToLower e = a \<longrightarrow>
      normExp e = normExp n \<and> normExp n \<noteq> None \<and>
      snd (convert (c\<lparr>Exp := e\<rparr>)) = snd (convert (c\<lparr>Exp := n\<rparr>)) \<and>
      (snd (convert (c\<lparr>Exp := n\<rparr>)) = None \<longrightarrow>
         convert (c\<lparr>Exp := e\<rparr>) = convert (c\<lparr>Exp := n\<rparr>))) \<and>
   ((b, m) \<in> set [(''&'', AND), (''&&'', AND), (''|'', OR), (''||'', OR)] \<longrightarrow>
    ToLower lg = b \<longrightarrow>
      normLogic lg = normLogic m \<and> normLogic m \<noteq> None \<and>
      convertLogic (c\<lparr>Logic := lg\<rparr>) = convertLogic (c\<lparr>Logic := m\<rparr>) \<and>
      snd (convert (c\<lparr>Logic := lg\<rparr>)) = snd (convert (c\<lparr>Logic := m\<rparr>)) \<and>
      (snd (convert (c\<lparr>Logic := m\<rparr>)) = None \<longrightarrow>
         convert (c\<lparr>Logic := lg\<rparr>) = convert (c\<lparr>Logic := m\<rparr>)))"
proof (intro conjI impI)
  assume h: "(a, n) \<in> set [(''='', Eq), (''!='', Neq), (''>'', Gt), (''>='', Gte), (''<'', Lt),
                    (''<='', Lte), (''notin'', NotIn), (''not in'', NotIn)]" "ToLower e = a"
  from exp_alias_canonical [OF h] obtain v where v: "normExp e = Some v" "normExp n = Some v"
    by blast
  show "normExp e = normExp n" "normExp n \<noteq> None" using v by simp_all
  show "snd (convert (c\<lparr>Exp := e\<rparr>)) = snd (convert (c\<lparr>Exp := n\<rparr>))"
    using convert_same_op(1) [OF v] .
  show "convert (c\<lparr>Exp := e\<rparr>) = convert (c\<lparr>Exp := n\<rparr>)"
    if "snd (convert (c\<lparr>Exp := n\<rparr>)) = None"
    using convert_same_op(2) [OF v that] .
next
  assume h: "(b, m) \<in> set [(''&'', AND), (''&&'', AND), (''|'', OR), (''||'', OR)]" "ToLower lg = b"
  from logic_alias_canonical [OF h] obtain v where v: "normLogic lg = Some v" "normLogic m = Some v"
    by blast
  show "normLogic lg = normLogic m" "normLogic m \<noteq> None" using v by simp_all
  show "convertLogic (c\<lparr>Logic := lg\<rparr>) = convertLogic (c\<lparr>Logic := m\<rparr>)"
    using convertLogic_same_logic [OF v] .
  show "snd (convert (c\<lparr>Logic := lg\<rparr>)) = snd (convert (c\<lparr>Logic := m\<rparr>))"
    using convert_same_logic(1) [OF v] .
  show "convert (c\<lparr>Logic := lg\<rparr>) = convert (c\<lparr>Logic := m\<rparr>)"
    if "snd (convert (c\<lparr>Logic := m\<rparr>)) = None"
    using convert_same_logic(2) [OF v that] .
qed

theorem aliases_behave_as_named_tokens_witness:
  "convert \<lparr>Name = ''tag'', Exp = ''Not In'', Value = VString ''x,y'', Logic = ''||''\<rparr> =
     convert \<lparr>Name = ''tag'', Exp = NotIn, Value = VString ''x,y'', Logic = ''||''\<rparr> \<and>
   convert \<lparr>Name = ''tag'', Exp = ''Not In'', Value = VString ''x,y'', Logic = ''||''\<rparr> =
     convert \<lparr>Name = ''tag'', Exp = ''Not In'', Value = VString ''x,y'', Logic = OR\<rparr> \<and>
   convert \<lparr>Name = ''tag'', Exp = NotIn, Value = VString ''x,y'', Logic = ''||''\<rparr> =
     (\<lparr>Name = ''tag'', Exp = NotIn,
       Value = VDoc [(''$nin'', VArray [VString ''x'', VString ''y''])], Logic = ''|''\<rparr>, None)"
proof -
  let ?c = "\<lparr>Name = ''tag'', Exp = ''Not In'', Value = VString ''x,y'', Logic = ''||''\<rparr>"
  have m1: "(''not in'', NotIn) \<in> set [(''='', Eq), (''!='', Neq), (''>'', Gt), (''>='', Gte),
      (''<'', Lt), (''<='', Lte), (''notin'', NotIn), (''not in'', NotIn)]"
    by simp
  have m2: "(''||'', OR) \<in> set [(''&'', AND), (''&&'', AND), (''|'', OR), (''||'', OR)]"
    by simp
  have l1: "ToLower ''Not In'' = ''not in''" by code_simp
  have l2: "ToLower ''||'' = ''||''" by code_simp
  have s1: "snd (convert (?c\<lparr>Exp := NotIn\<rparr>)) = None" by code_simp
  have s2: "snd (convert (?c\<lparr>Logic := OR\<rparr>)) = None" by code_simp
  have r: "convert \<lparr>Name = ''tag'', Exp = NotIn, Value = VString ''x,y'', Logic = ''||''\<rparr> =
     (\<lparr>Name = ''tag'', Exp = NotIn,
       Value = VDoc [(''$nin'', VArray [VString ''x'', VString ''y''])], Logic = ''|''\<rparr>, None)"
    by code_simp
  from aliases_behave_as_named_tokens
         [of "''not in''" NotIn "''Not In''" ?c "''||''" OR "''||''"] m1 m2 l1 l2 s1 s2
  have "convert (?c\<lparr>Exp := ''Not In''\<rparr>) = convert (?c\<lparr>Exp := NotIn\<rparr>)"
    and "convert (?c\<lparr>Logic := ''||''\<rparr>) = convert (?c\<lparr>Logic := OR\<rparr>)"
    by blast+
  with r show ?thesis by simp
qed

subsection \<open>Set operators\<close>

text \<open>
  Claim C9 says that a string value of an in-set or not-in-set column is split on commas.
  It is not when the string is a 24-digit hexadecimal identifier: \<^verbatim>\<open>convert\<close> has
  replaced the string by the ObjectID before it looks at the operator, the type assertion
  \<^verbatim>\<open>c.Value.(string)\<close> fails, and the column is rejected.
\<close>

theorem set_operator_on_objectid_counterexample:
  "convert \<lparr>Name = ''id'', Exp = ''in'', Value = VString ''507f1f77bcf86cd799439011'', Logic = []\<rparr> =
     (\<lparr>Name = ''_id'', Exp = ''in'',
       Value = VObjectID [0x50, 0x7f, 0x1f, 0x77, 0xbc, 0xf8, 0x6c, 0xd7, 0x99, 0x43, 0x90, 0x11],
       Logic = []\<rparr>,
      Some (InvalidValueType
        (VObjectID [0x50, 0x7f, 0x1f, 0x77, 0xbc, 0xf8, 0x6c, 0xd7, 0x99, 0x43, 0x90, 0x11])))"
  by code_simp

text \<open>
  Claim C9, amended. Let a column pass \<^verbatim>\<open>checkValid\<close> and let its operator normalise to
  \<open>in\<close> or \<open>nin\<close>. If its value is not a string, \<^verbatim>\<open>convert\<close> returns the type error
  for that value; if its value is a string that is coerced to an ObjectID, \<^verbatim>\<open>convert\<close>
  returns the type error for the ObjectID; if its value is any other string, the value
  becomes the \<open>$in\<close> (respectively \<open>$nin\<close>) document holding the list of the pieces between
  the commas, and only the logic of the column is left to normalise. A column that
  \<^verbatim>\<open>convert\<close> rejects makes the whole call fail in every list that is not of mixed logic.
\<close>

theorem set_operator_values:
  assumes "checkValid c = None" "normExp (Exp c) = Some op" "op = In \<or> op = NotIn"
  shows "((\<forall>s. Value c \<noteq> VString s) \<longrightarrow>
            snd (convert c) = Some (InvalidValueType (Value c))) \<and>
         (\<forall>oid. isObjectID (Value c) = Some oid \<longrightarrow>
            snd (convert c) = Some (InvalidValueType (VObjectID oid))) \<and>
         (\<forall>s. Value c = VString s \<longrightarrow> isObjectID (Value c) = None \<longrightarrow>
            convert c =
              convertLogic (c\<lparr>Exp := op,
                Value := VDoc [(''$'' @ op, VArray (map VString (Split s CHR '','')))]\<rparr>)) \<and>
         (\<forall>p opts. c \<in> set (Columns p) \<longrightarrow> snd (convert c) \<noteq> None \<longrightarrow>
            fst (snd (checkSameLogic (Columns p))) = None \<longrightarrow>
            snd (snd (ConvertToMongoFilter p opts)) \<noteq> None)"
proof (intro conjI allI impI)
  from assms(2,3) have ne: "Exp c \<noteq> []"
    by auto
  have conv: "convert c = normalizeExp (coerceObjectID c)"
    using assms(1) by (simp add: convert_steps)
  have op: "normExp (Exp (coerceObjectID c)) = Some op" "Exp (coerceObjectID c) \<noteq> []"
    using assms(2) ne by simp_all
  {
    assume "\<forall>s. Value c \<noteq> VString s"
    then have "coerceObjectID c = c"
      by (cases "Value c") (simp_all add: coerceObjectID_def isObjectID_def)
    with \<open>\<forall>s. Value c \<noteq> VString s\<close> show "snd (convert c) = Some (InvalidValueType (Value c))"
      using assms ne
      by (cases "Value c") (simp_all add: conv normalizeExp_def wrapValue_set)
  }
  {
    fix oid assume "isObjectID (Value c) = Some oid"
    then have "Value (coerceObjectID c) = VObjectID oid"
      by (simp add: coerceObjectID_def)
    then show "snd (convert c) = Some (InvalidValueType (VObjectID oid))"
      using op assms(3) by (simp add: conv normalizeExp_def wrapValue_set)
  }
  {
    fix s assume "Value c = VString s" "isObjectID (Value c) = None"
    then have "coerceObjectID c = c"
      by (simp add: coerceObjectID_def)
    with \<open>Value c = VString s\<close> assms ne
    show "convert c =
        convertLogic (c\<lparr>Exp := op,
          Value := VDoc [(''$'' @ op, VArray (map VString (Split s CHR '','')))]\<rparr>)"
      by (simp add: conv normalizeExp_def wrapValue_set)
  }
  {
    fix p :: Params and opts :: "RulerOption list"
    assume "c \<in> set (Columns p)" "snd (convert c) \<noteq> None"
      "fst (snd (checkSameLogic (Columns p))) = None"
    then show "snd (snd (ConvertToMongoFilter p opts)) \<noteq> None"
      by (rule ConvertToMongoFilter_fails)
  }
qed


theorem set_operator_values_witness:
  "snd (convert \<lparr>Name = ''tags'', Exp = ''IN'', Value = VInt 5, Logic = []\<rparr>) =
     Some (InvalidValueType (VInt 5)) \<and>
   snd (snd (ConvertToMongoFilter
     \<lparr>Page = 0, Limit = 10, Sort = [], Columns =
        [\<lparr>Name = ''a'', Exp = [], Value = VInt 1, Logic = []\<rparr>,
         \<lparr>Name = ''tags'', Exp = ''IN'', Value = VInt 5, Logic = []\<rparr>,
         \<lparr>Name = ''b'', Exp = [], Value = VInt 2, Logic = []\<rparr>], Size = 0\<rparr> [])) \<noteq> None \<and>
   snd (convert \<lparr>Name = ''id'', Exp = ''in'', Value = VString ''507f1f77bcf86cd799439011'', Logic = []\<rparr>) =
     Some (InvalidValueType
       (VObjectID [0x50, 0x7f, 0x1f, 0x77, 0xbc, 0xf8, 0x6c, 0xd7, 0x99, 0x43, 0x90, 0x11])) \<and>
   convert \<lparr>Name = ''tags'', Exp = ''not in'', Value = VString ''a,b'', Logic = []\<rparr> =
     (\<lparr>Name = ''tags'', Exp = NotIn,
       Value = VDoc [(''$nin'', VArray [VString ''a'', VString ''b''])], Logic = ''&''\<rparr>, None)"
proof -
  let ?c1 = "\<lparr>Name = ''tags'', Exp = ''IN'', Value = VInt 5, Logic = []\<rparr>"
  let ?p1 = "\<lparr>Page = 0, Limit = 10, Sort = [], Columns =
        [\<lparr>Name = ''a'', Exp = [], Value = VInt 1, Logic = []\<rparr>, ?c1,
         \<lparr>Name = ''b'', Exp = [], Value = VInt 2, Logic = []\<rparr>], Size = 0\<rparr>"
  let ?c2 = "\<lparr>Name = ''id'', Exp = ''in'', Value = VString ''507f1f77bcf86cd799439011'', Logic = []\<rparr>"
  let ?oid = "[0x50, 0x7f, 0x1f, 0x77, 0xbc, 0xf8, 0x6c, 0xd7, 0x99, 0x43, 0x90, 0x11] :: byte list"
  let ?c3 = "\<lparr>Name = ''tags'', Exp = ''not in'', Value = VString ''a,b'', Logic = []\<rparr>"
  have a1: "checkValid ?c1 = None" by code_simp
  have a2: "normExp (Exp ?c1) = Some In" by code_simp
  have a3: "In = In \<or> In = NotIn" by simp
  have a4: "\<forall>s. Value ?c1 \<noteq> VString s" by simp
  from set_operator_values [OF a1 a2 a3] a4
  have r1: "snd (convert ?c1) = Some (InvalidValueType (VInt 5))" by simp
  have a5: "?c1 \<in> set (Columns ?p1)" by simp
  have a6: "snd (convert ?c1) \<noteq> None" using r1 by simp
  have a7: "fst (snd (checkSameLogic (Columns ?p1))) = None" by code_simp
  from set_operator_values [OF a1 a2 a3] a5 a6 a7
  have r2: "snd (snd (ConvertToMongoFilter ?p1 [])) \<noteq> None" by blast
  have b1: "checkValid ?c2 = None" by code_simp
  have b2: "normExp (Exp ?c2) = Some In" by code_simp
  have b4: "isObjectID (Value ?c2) = Some ?oid" by code_simp
  from set_operator_values [OF b1 b2 a3] b4
  have r3: "snd (convert ?c2) = Some (InvalidValueType (VObjectID ?oid))" by blast
  have c1: "checkValid ?c3 = None" by code_simp
  have c2: "normExp (Exp ?c3) = Some NotIn" by code_simp
  have c3: "NotIn = In \<or> NotIn = NotIn" by simp
  have c4: "Value ?c3 = VString ''a,b''" by simp
  have c5: "isObjectID (Value ?c3) = None" by code_simp
  have c6: "convertLogic (?c3\<lparr>Exp := NotIn,
        Value := VDoc [(''$'' @ NotIn, VArray (map VString (Split ''a,b'' CHR '','')))]\<rparr>) =
      (\<lparr>Name = ''tags'', Exp = NotIn,
        Value = VDoc [(''$nin'', VArray [VString ''a'', VString ''b''])], Logic = ''&''\<rparr>, None)"
    by code_simp
  from set_operator_values [OF c1 c2 c3] c4 c5
  have "convert ?c3 = convertLogic (?c3\<lparr>Exp := NotIn,
        Value := VDoc [(''$'' @ NotIn, VArray (map VString (Split ''a,b'' CHR '','')))]\<rparr>)"
    by blast
  with c6 have r4: "convert ?c3 =
      (\<lparr>Name = ''tags'', Exp = NotIn,
        Value = VDoc [(''$nin'', VArray [VString ''a'', VString ''b''])], Logic = ''&''\<rparr>, None)"
    by simp
  from r1 r2 r3 r4 show ?thesis by blast
qed

subsection \<open>The fast paths and the general builder\<close>

text \<open>
  Claim C4 says that for lists of 0, 1 and 2 columns the fast paths return what
  \<^verbatim>\<open>convertMultiColumns\<close> returns. For one column they do not: the fast path returns the
  bare predicate, the general algorithm a \<open>$and\<close> group with that predicate as its only
  member. For two columns the error can differ, since the fast path checks both names
  before it converts the first column and the general algorithm does not.
\<close>

theorem fast_path_differs_counterexample:
  "snd (ConvertToMongoFilter
     \<lparr>Page = 0, Limit = 10, Sort = [],
      Columns = [\<lparr>Name = ''a'', Exp = [], Value = VInt 1, Logic = []\<rparr>], Size = 0\<rparr> [])
     = (Some [(''a'', VInt 1)], None) \<and>
   convertMultiColumns
     \<lparr>Page = 0, Limit = 10, Sort = [],
      Columns = [\<lparr>Name = ''a'', Exp = [], Value = VInt 1, Logic = []\<rparr>], Size = 0\<rparr> None
     = (Some [(''$and'', VArray [VDoc [(''a'', VInt 1)]])], None) \<and>
   snd (ConvertToMongoFilter
     \<lparr>Page = 0, Limit = 10, Sort = [],
      Columns = [\<lparr>Name = ''a'', Exp = ''between'', Value = VInt 1, Logic = []\<rparr>,
                 \<lparr>Name = [], Exp = [], Value = VInt 2, Logic = []\<rparr>], Size = 0\<rparr> [])
     = (None, Some (NameNotAllowed [])) \<and>
   convertMultiColumns
     \<lparr>Page = 0, Limit = 10, Sort = [],
      Columns = [\<lparr>Name = ''a'', Exp = ''between'', Value = VInt 1, Logic = []\<rparr>,
                 \<lparr>Name = [], Exp = [], Value = VInt 2, Logic = []\<rparr>], Size = 0\<rparr> None
     = (None, Some (UnsupportedExp ''between''))"
  by code_simp

text \<open>
  Claim C4, amended. Let the validation function, if any, accept the columns. For no
  column the fast path and \<^verbatim>\<open>convertMultiColumns\<close> return the same: the empty filter and
  no error. For one column they return the same error, and where the fast path returns
  the bare predicate the general algorithm returns the \<open>$and\<close> group of that one
  predicate. For two columns, when no whitelist is configured or the logic of the first
  column does not normalise to OR, they return the same filter and they fail on the same
  inputs; which error is reported may differ.
\<close>

theorem fast_paths_against_general:
  assumes "validated opts p"
  shows "(Columns p = [] \<longrightarrow>
            snd (ConvertToMongoFilter p opts) =
              convertMultiColumns p (whitelistNames (options opts))) \<and>
         (length (Columns p) = 1 \<longrightarrow>
            snd (snd (ConvertToMongoFilter p opts)) =
              snd (convertMultiColumns p (whitelistNames (options opts))) \<and>
            fst (convertMultiColumns p (whitelistNames (options opts))) =
              map_option (\<lambda>f. [(''$and'', VArray [VDoc f])]) (fst (snd (ConvertToMongoFilter p opts)))) \<and>
         (length (Columns p) = 2 \<longrightarrow>
            (whitelistNames (options opts) = None \<or>
             normLogic (Logic (Columns p ! 0)) \<noteq> Some orSymbol1) \<longrightarrow>
            fst (snd (ConvertToMongoFilter p opts)) =
              fst (convertMultiColumns p (whitelistNames (options opts))) \<and>
            (snd (snd (ConvertToMongoFilter p opts)) = None \<longleftrightarrow>
             snd (convertMultiColumns p (whitelistNames (options opts))) = None))"
proof (intro conjI impI)
  assume "Columns p = []"
  then show "snd (ConvertToMongoFilter p opts) =
      convertMultiColumns p (whitelistNames (options opts))"
    by (simp add: ConvertToMongoFilter_0 [OF assms] convertMultiColumns_0)
next
  assume "length (Columns p) = 1"
  then obtain c0 where cols: "Columns p = [c0]"
    by (cases "Columns p") auto
  show "snd (snd (ConvertToMongoFilter p opts)) =
      snd (convertMultiColumns p (whitelistNames (options opts)))"
    by (simp add: ConvertToMongoFilter_1 [OF assms cols] convertMultiColumns_1 [OF cols]
          split: option.splits)
  show "fst (convertMultiColumns p (whitelistNames (options opts))) =
      map_option (\<lambda>f. [(''$and'', VArray [VDoc f])]) (fst (snd (ConvertToMongoFilter p opts)))"
    by (simp add: ConvertToMongoFilter_1 [OF assms cols] convertMultiColumns_1 [OF cols]
          predicate_def split: option.splits)
next
  assume len: "length (Columns p) = 2"
    and h: "whitelistNames (options opts) = None \<or>
            normLogic (Logic (Columns p ! 0)) \<noteq> Some orSymbol1"
  from len obtain c0 c1 where cols: "Columns p = [c0, c1]"
    by (cases "Columns p"; cases "tl (Columns p)") auto
  with h have h': "whitelistNames (options opts) = None \<or> normLogic (Logic c0) \<noteq> Some orSymbol1"
    by simp
  show "fst (snd (ConvertToMongoFilter p opts)) =
      fst (convertMultiColumns p (whitelistNames (options opts)))"
    by (rule two_columns_same_filter(1) [OF assms cols h'])
  show "snd (snd (ConvertToMongoFilter p opts)) = None \<longleftrightarrow>
      snd (convertMultiColumns p (whitelistNames (options opts))) = None"
    by (rule two_columns_same_filter(2) [OF assms cols h'])
qed


theorem fast_paths_against_general_witness:
  "convertMultiColumns \<lparr>Page = 0, Limit = 10, Sort = [], Columns = [], Size = 0\<rparr> None =
     (Some [], None) \<and>
   convertMultiColumns
     \<lparr>Page = 0, Limit = 10, Sort = [],
      Columns = [\<lparr>Name = ''a'', Exp = ''lt'', Value = VInt 1, Logic = []\<rparr>], Size = 0\<rparr>
     (Some [''a'' \<mapsto> True]) =
     (Some [(''$and'', VArray [VDoc [(''a'', VDoc [(''$lt'', VInt 1)])]])], None) \<and>
   convertMultiColumns
     \<lparr>Page = 0, Limit = 10, Sort = [],
      Columns = [\<lparr>Name = ''a'', Exp = [], Value = VInt 1, Logic = ''OR''\<rparr>,
                 \<lparr>Name = ''b'', Exp = [], Value = VInt 2, Logic = []\<rparr>], Size = 0\<rparr> None =
     (Some [(''$or'', VArray [VDoc [(''a'', VInt 1)], VDoc [(''b'', VInt 2)]])], None)"
proof -
  let ?p0 = "\<lparr>Page = 0, Limit = 10, Sort = [], Columns = [], Size = 0\<rparr>"
  let ?p1 = "\<lparr>Page = 0, Limit = 10, Sort = [],
      Columns = [\<lparr>Name = ''a'', Exp = ''lt'', Value = VInt 1, Logic = []\<rparr>], Size = 0\<rparr>"
  let ?wl = "Some [''a'' \<mapsto> True]"
  let ?p2 = "\<lparr>Page = 0, Limit = 10, Sort = [],
      Columns = [\<lparr>Name = ''a'', Exp = [], Value = VInt 1, Logic = ''OR''\<rparr>,
                 \<lparr>Name = ''b'', Exp = [], Value = VInt 2, Logic = []\<rparr>], Size = 0\<rparr>"
  have v0: "validated [] ?p0" by simp
  have e0: "Columns ?p0 = []" by simp
  have f0: "snd (ConvertToMongoFilter ?p0 []) = (Some [], None)" by code_simp
  from fast_paths_against_general [OF v0] e0 f0
  have r0: "convertMultiColumns ?p0 None = (Some [], None)" by simp
  have v1: "validated [WithWhitelistNames ?wl] ?p1" by simp
  have e1: "length (Columns ?p1) = 1" by simp
  have f1: "snd (ConvertToMongoFilter ?p1 [WithWhitelistNames ?wl]) =
      (Some [(''a'', VDoc [(''$lt'', VInt 1)])], None)"
    by code_simp
  from fast_paths_against_general [OF v1] e1
  have "snd (snd (ConvertToMongoFilter ?p1 [WithWhitelistNames ?wl])) =
          snd (convertMultiColumns ?p1 ?wl)"
    and "fst (convertMultiColumns ?p1 ?wl) =
          map_option (\<lambda>f. [(''$and'', VArray [VDoc f])])
            (fst (snd (ConvertToMongoFilter ?p1 [WithWhitelistNames ?wl])))"
    by simp_all
  with f1 have "snd (convertMultiColumns ?p1 ?wl) = None"
    and "fst (convertMultiColumns ?p1 ?wl) =
          Some [(''$and'', VArray [VDoc [(''a'', VDoc [(''$lt'', VInt 1)])]])]"
    by simp_all
  then have r1: "convertMultiColumns ?p1 ?wl =
      (Some [(''$and'', VArray [VDoc [(''a'', VDoc [(''$lt'', VInt 1)])]])], None)"
    by (simp add: prod_eq_iff)
  have v2: "validated [] ?p2" by simp
  have e2: "length (Columns ?p2) = 2" by simp
  have w2: "whitelistNames (options []) = None" by simp
  have f2: "snd (ConvertToMongoFilter ?p2 []) =
      (Some [(''$or'', VArray [VDoc [(''a'', VInt 1)], VDoc [(''b'', VInt 2)]])], None)"
    by code_simp
  from fast_paths_against_general [OF v2] e2 w2
  have "fst (snd (ConvertToMongoFilter ?p2 [])) = fst (convertMultiColumns ?p2 None)"
    and "snd (snd (ConvertToMongoFilter ?p2 [])) = None \<longleftrightarrow>
         snd (convertMultiColumns ?p2 None) = None"
    by simp_all
  with f2 have "fst (convertMultiColumns ?p2 None) =
        Some [(''$or'', VArray [VDoc [(''a'', VInt 1)], VDoc [(''b'', VInt 2)]])]"
    and "snd (convertMultiColumns ?p2 None) = None"
    by simp_all
  then have r2: "convertMultiColumns ?p2 None =
      (Some [(''$or'', VArray [VDoc [(''a'', VInt 1)], VDoc [(''b'', VInt 2)]])], None)"
    by (simp add: prod_eq_iff)
  from r0 r1 r2 show ?thesis by blast
qed

subsection \<open>Mutation of the parameters\<close>

text \<open>
  Claim C6 says that after a successful call every input column holds its normalised
  \<^verbatim>\<open>Exp\<close>, \<^verbatim>\<open>Value\<close> and \<^verbatim>\<open>Logic\<close>, and that nothing else has changed. With three columns
  the call succeeds and the columns are as they were, the operator of the first still
  empty: \<^verbatim>\<open>convertMultiColumns\<close> normalises copies. With one column whose value is an
  identifier, the call also rewrites the column's \<^verbatim>\<open>Name\<close>.
\<close>

theorem columns_not_normalized_counterexample:
  "snd (ConvertToMongoFilter
     \<lparr>Page = 0, Limit = 10, Sort = [], Columns =
        [\<lparr>Name = ''a'', Exp = [], Value = VInt 1, Logic = []\<rparr>,
         \<lparr>Name = ''b'', Exp = ''gt'', Value = VInt 2, Logic = []\<rparr>,
         \<lparr>Name = ''c'', Exp = [], Value = VInt 3, Logic = []\<rparr>], Size = 0\<rparr> [])
     = (Some [(''$and'', VArray [VDoc [(''a'', VInt 1)], VDoc [(''b'', VDoc [(''$gt'', VInt 2)])],
                                VDoc [(''c'', VInt 3)]])], None) \<and>
   Columns (fst (ConvertToMongoFilter
     \<lparr>Page = 0, Limit = 10, Sort = [], Columns =
        [\<lparr>Name = ''a'', Exp = [], Value = VInt 1, Logic = []\<rparr>,
         \<lparr>Name = ''b'', Exp = ''gt'', Value = VInt 2, Logic = []\<rparr>,
         \<lparr>Name = ''c'', Exp = [], Value = VInt 3, Logic = []\<rparr>], Size = 0\<rparr> []))
     = [\<lparr>Name = ''a'', Exp = [], Value = VInt 1, Logic = []\<rparr>,
        \<lparr>Name = ''b'', Exp = ''gt'', Value = VInt 2, Logic = []\<rparr>,
        \<lparr>Name = ''c'', Exp = [], Value = VInt 3, Logic = []\<rparr>] \<and>
   normalized \<lparr>Name = ''a'', Exp = [], Value = VInt 1, Logic = []\<rparr>
     = \<lparr>Name = ''a'', Exp = ''='', Value = VInt 1, Logic = ''&''\<rparr> \<and>
   Columns (fst (ConvertToMongoFilter
     \<lparr>Page = 0, Limit = 10, Sort = [], Columns =
        [\<lparr>Name = ''id'', Exp = [], Value = VString ''507f1f77bcf86cd799439011'', Logic = []\<rparr>],
      Size = 0\<rparr> []))
     = [\<lparr>Name = ''_id'', Exp = ''='',
         Value = VObjectID [0x50, 0x7f, 0x1f, 0x77, 0xbc, 0xf8, 0x6c, 0xd7, 0x99, 0x43, 0x90, 0x11],
         Logic = ''&''\<rparr>]"
  by code_simp

text \<open>
  Claim C6, amended. A call never changes \<^verbatim>\<open>Page\<close>, \<^verbatim>\<open>Limit\<close>, \<^verbatim>\<open>Sort\<close> or \<^verbatim>\<open>Size\<close>, nor
  the number of columns. With three or more columns it changes nothing at all: the
  columns are normalised as copies. With at most two columns, a successful call leaves
  every column as \<^verbatim>\<open>convert\<close> leaves it: \<^verbatim>\<open>Exp\<close>, \<^verbatim>\<open>Value\<close> and \<^verbatim>\<open>Logic\<close> normalised, and
  \<^verbatim>\<open>Name\<close> rewritten where the value was coerced to an ObjectID.
\<close>

theorem columns_written_on_fast_paths_only:
  "Page (fst (ConvertToMongoFilter p opts)) = Page p \<and>
   Limit (fst (ConvertToMongoFilter p opts)) = Limit p \<and>
   Sort (fst (ConvertToMongoFilter p opts)) = Sort p \<and>
   Size (fst (ConvertToMongoFilter p opts)) = Size p \<and>
   length (Columns (fst (ConvertToMongoFilter p opts))) = length (Columns p) \<and>
   (3 \<le> length (Columns p) \<longrightarrow> fst (ConvertToMongoFilter p opts) = p) \<and>
   (length (Columns p) \<le> 2 \<longrightarrow> snd (snd (ConvertToMongoFilter p opts)) = None \<longrightarrow>
      Columns (fst (ConvertToMongoFilter p opts)) = map normalized (Columns p))"
  using ConvertToMongoFilter_frame [of p opts] ConvertToMongoFilter_many_unchanged [of p opts]
    ConvertToMongoFilter_short_normalized [of p opts]
  by blast

theorem columns_written_on_fast_paths_only_witness:
  "fst (ConvertToMongoFilter
     \<lparr>Page = 2, Limit = 10, Sort = ''-id'', Columns =
        [\<lparr>Name = ''a'', Exp = [], Value = VInt 1, Logic = []\<rparr>,
         \<lparr>Name = ''b'', Exp = ''gt'', Value = VInt 2, Logic = []\<rparr>,
         \<lparr>Name = ''c'', Exp = [], Value = VInt 3, Logic = []\<rparr>], Size = 0\<rparr> [])
     = \<lparr>Page = 2, Limit = 10, Sort = ''-id'', Columns =
        [\<lparr>Name = ''a'', Exp = [], Value = VInt 1, Logic = []\<rparr>,
         \<lparr>Name = ''b'', Exp = ''gt'', Value = VInt 2, Logic = []\<rparr>,
         \<lparr>Name = ''c'', Exp = [], Value = VInt 3, Logic = []\<rparr>], Size = 0\<rparr> \<and>
   Columns (fst (ConvertToMongoFilter
     \<lparr>Page = 2, Limit = 10, Sort = ''-id'', Columns =
        [\<lparr>Name = ''a'', Exp = [], Value = VInt 1, Logic = ''or''\<rparr>,
         \<lparr>Name = ''b'', Exp = ''gt'', Value = VInt 2, Logic = []\<rparr>], Size = 0\<rparr> []))
     = [\<lparr>Name = ''a'', Exp = ''='', Value = VInt 1, Logic = ''|''\<rparr>,
        \<lparr>Name = ''b'', Exp = ''>'', Value = VDoc [(''$gt'', VInt 2)], Logic = ''&''\<rparr>]"
proof -
  let ?p3 = "\<lparr>Page = 2, Limit = 10, Sort = ''-id'', Columns =
        [\<lparr>Name = ''a'', Exp = [], Value = VInt 1, Logic = []\<rparr>,
         \<lparr>Name = ''b'', Exp = ''gt'', Value = VInt 2, Logic = []\<rparr>,
         \<lparr>Name = ''c'', Exp = [], Value = VInt 3, Logic = []\<rparr>], Size = 0\<rparr>"
  let ?p2 = "\<lparr>Page = 2, Limit = 10, Sort = ''-id'', Columns =
        [\<lparr>Name = ''a'', Exp = [], Value = VInt 1, Logic = ''or''\<rparr>,
         \<lparr>Name = ''b'', Exp = ''gt'', Value = VInt 2, Logic = []\<rparr>], Size = 0\<rparr>"
  have a: "3 \<le> length (Columns ?p3)" by simp
  from columns_written_on_fast_paths_only [of ?p3 "[]"] a
  have r3: "fst (ConvertToMongoFilter ?p3 []) = ?p3" by blast
  have b: "length (Columns ?p2) \<le> 2" by simp
  have c: "snd (snd (ConvertToMongoFilter ?p2 [])) = None" by code_simp
  have d: "map normalized (Columns ?p2) =
      [\<lparr>Name = ''a'', Exp = ''='', Value = VInt 1, Logic = ''|''\<rparr>,
       \<lparr>Name = ''b'', Exp = ''>'', Value = VDoc [(''$gt'', VInt 2)], Logic = ''&''\<rparr>]"
    by code_simp
  from columns_written_on_fast_paths_only [of ?p2 "[]"] b c
  have "Columns (fst (ConvertToMongoFilter ?p2 [])) = map normalized (Columns ?p2)" by blast
  with d r3 show ?thesis by simp
qed

subsection \<open>The logic of the last column\<close>

text \<open>
  Claim C3 says that the logic of the last column has no influence at all, not even when
  it is an unrecognised token. It has: \<^verbatim>\<open>convert\<close> normalises the logic of every column,
  the last one too, and rejects the column when the token is unknown. The same single
  column succeeds with an empty logic and fails with the logic \<open>xxx\<close>; so do three columns
  that differ in the logic of the last.
\<close>

theorem last_logic_unknown_counterexample:
  "snd (ConvertToMongoFilter
     \<lparr>Page = 0, Limit = 10, Sort = [],
      Columns = [\<lparr>Name = ''a'', Exp = [], Value = VInt 1, Logic = []\<rparr>], Size = 0\<rparr> [])
     = (Some [(''a'', VInt 1)], None) \<and>
   snd (ConvertToMongoFilter
     \<lparr>Page = 0, Limit = 10, Sort = [],
      Columns = [\<lparr>Name = ''a'', Exp = [], Value = VInt 1, Logic = ''xxx''\<rparr>], Size = 0\<rparr> [])
     = (None, Some (UnknownLogic ''xxx'')) \<and>
   snd (ConvertToMongoFilter
     \<lparr>Page = 0, Limit = 10, Sort = [], Columns =
        [\<lparr>Name = ''a'', Exp = [], Value = VInt 1, Logic = []\<rparr>,
         \<lparr>Name = ''b'', Exp = [], Value = VInt 2, Logic = []\<rparr>,
         \<lparr>Name = ''c'', Exp = [], Value = VInt 3, Logic = ''and''\<rparr>], Size = 0\<rparr> [])
     = (Some [(''$and'', VArray [VDoc [(''a'', VInt 1)], VDoc [(''b'', VInt 2)],
                                VDoc [(''c'', VInt 3)]])], None) \<and>
   snd (ConvertToMongoFilter
     \<lparr>Page = 0, Limit = 10, Sort = [], Columns =
        [\<lparr>Name = ''a'', Exp = [], Value = VInt 1, Logic = []\<rparr>,
         \<lparr>Name = ''b'', Exp = [], Value = VInt 2, Logic = []\<rparr>,
         \<lparr>Name = ''c'', Exp = [], Value = VInt 3, Logic = ''xxx''\<rparr>], Size = 0\<rparr> [])
     = (None, Some (UnknownLogic ''xxx''))"
  by code_simp

text \<open>
  Claim C3, amended. The logic of the last column never influences the grouping:
  \<^verbatim>\<open>checkSameLogic\<close> returns the same for two lists that differ only there. It does not
  influence the filter or the error either, as long as it is empty or a recognised token
  (and the validation function, which sees the raw columns, accepts both lists): two
  lists that differ only in the logic of the last column, recognised in both, give the
  same filter and the same error.
\<close>

theorem last_logic_ignored_when_recognized:
  "checkSameLogic (cs @ [c\<lparr>Logic := l1\<rparr>]) = checkSameLogic (cs @ [c\<lparr>Logic := l2\<rparr>]) \<and>
   (normLogic l1 \<noteq> None \<longrightarrow> normLogic l2 \<noteq> None \<longrightarrow>
    validated opts (p\<lparr>Columns := cs @ [c\<lparr>Logic := l1\<rparr>]\<rparr>) \<longrightarrow>
    validated opts (p\<lparr>Columns := cs @ [c\<lparr>Logic := l2\<rparr>]\<rparr>) \<longrightarrow>
      snd (ConvertToMongoFilter (p\<lparr>Columns := cs @ [c\<lparr>Logic := l1\<rparr>]\<rparr>) opts) =
      snd (ConvertToMongoFilter (p\<lparr>Columns := cs @ [c\<lparr>Logic := l2\<rparr>]\<rparr>) opts))"
proof (intro conjI impI)
  show "checkSameLogic (cs @ [c\<lparr>Logic := l1\<rparr>]) = checkSameLogic (cs @ [c\<lparr>Logic := l2\<rparr>])"
    by (rule checkSameLogic_last)
next
  assume l: "normLogic l1 \<noteq> None" "normLogic l2 \<noteq> None"
    and v: "validated opts (p\<lparr>Columns := cs @ [c\<lparr>Logic := l1\<rparr>]\<rparr>)"
      "validated opts (p\<lparr>Columns := cs @ [c\<lparr>Logic := l2\<rparr>]\<rparr>)"
  have nm: "checkName (whitelistNames (options opts)) (c\<lparr>Logic := l1\<rparr>) =
      checkName (whitelistNames (options opts)) (c\<lparr>Logic := l2\<rparr>)"
    by simp
  have er: "snd (convert (c\<lparr>Logic := l1\<rparr>)) = snd (convert (c\<lparr>Logic := l2\<rparr>))"
    by (rule convert_Logic_indep(1) [OF l])
  have pr: "predicate (normalized (c\<lparr>Logic := l1\<rparr>)) = predicate (normalized (c\<lparr>Logic := l2\<rparr>))"
    unfolding normalized_def by (rule convert_Logic_indep(2) [OF l])
  show "snd (ConvertToMongoFilter (p\<lparr>Columns := cs @ [c\<lparr>Logic := l1\<rparr>]\<rparr>) opts) =
      snd (ConvertToMongoFilter (p\<lparr>Columns := cs @ [c\<lparr>Logic := l2\<rparr>]\<rparr>) opts)"
    by (rule ConvertToMongoFilter_last [OF v _ _ nm er pr]) simp_all
qed

theorem last_logic_ignored_when_recognized_witness:
  "snd (ConvertToMongoFilter
     \<lparr>Page = 0, Limit = 10, Sort = [], Columns =
        [\<lparr>Name = ''a'', Exp = [], Value = VInt 1, Logic = []\<rparr>,
         \<lparr>Name = ''b'', Exp = [], Value = VInt 2, Logic = ''or''\<rparr>,
         \<lparr>Name = ''c'', Exp = [], Value = VInt 3, Logic = []\<rparr>,
         \<lparr>Name = ''d'', Exp = [], Value = VInt 4, Logic = ''||''\<rparr>], Size = 0\<rparr> [])
     = (Some [(''$or'', VArray
          [VDoc [(''$and'', VArray [VDoc [(''a'', VInt 1)], VDoc [(''b'', VInt 2)]])],
           VDoc [(''$and'', VArray [VDoc [(''c'', VInt 3)], VDoc [(''d'', VInt 4)]])]])], None)"
proof -
  let ?cs = "[\<lparr>Name = ''a'', Exp = [], Value = VInt 1, Logic = []\<rparr>,
         \<lparr>Name = ''b'', Exp = [], Value = VInt 2, Logic = ''or''\<rparr>,
         \<lparr>Name = ''c'', Exp = [], Value = VInt 3, Logic = []\<rparr>]"
  let ?c = "\<lparr>Name = ''d'', Exp = [], Value = VInt 4, Logic = ''and''\<rparr>"
  let ?p = "\<lparr>Page = 0, Limit = 10, Sort = [], Columns = [], Size = 0\<rparr>"
  have l1: "normLogic ''||'' \<noteq> None" by code_simp
  have l2: "normLogic ''and'' \<noteq> None" by code_simp
  have v1: "validated [] (?p\<lparr>Columns := ?cs @ [?c\<lparr>Logic := ''||''\<rparr>]\<rparr>)" by simp
  have v2: "validated [] (?p\<lparr>Columns := ?cs @ [?c\<lparr>Logic := ''and''\<rparr>]\<rparr>)" by simp
  have r: "snd (ConvertToMongoFilter (?p\<lparr>Columns := ?cs @ [?c\<lparr>Logic := ''and''\<rparr>]\<rparr>) []) =
      (Some [(''$or'', VArray
          [VDoc [(''$and'', VArray [VDoc [(''a'', VInt 1)], VDoc [(''b'', VInt 2)]])],
           VDoc [(''$and'', VArray [VDoc [(''c'', VInt 3)], VDoc [(''d'', VInt 4)]])]])], None)"
    by code_simp
  from last_logic_ignored_when_recognized
         [where cs = ?cs and c = ?c and ?l1.0 = "''||''" and ?l2.0 = "''and''" and opts = "[]" and p = ?p]
       l1 l2 v1 v2
  have "snd (ConvertToMongoFilter (?p\<lparr>Columns := ?cs @ [?c\<lparr>Logic := ''||''\<rparr>]\<rparr>) []) =
      snd (ConvertToMongoFilter (?p\<lparr>Columns := ?cs @ [?c\<lparr>Logic := ''and''\<rparr>]\<rparr>) [])"
    by blast
  with r show ?thesis by simp
qed

end
